theory Spec2Isabelle
  imports Complex_Main "HOL-Library.AList"
begin

section \<open>Data model (models.py, env.py)\<close>

text \<open>
  Measurements, thresholds and clock readings are Python floats; they are modelled as
  \<open>real\<close>, so comparisons and subtraction are exact (no NaN, no rounding).
  Python integers (counters, millisecond tunables, row limits) are \<open>int\<close>.

  A Python \<open>dict\<close> is an insertion-ordered association list with unique keys:
  \<open>d[k] = v\<close> is \<open>AList.update k v d\<close> (replace in place, or append),
  \<open>d.get(k)\<close> is \<open>map_of d k\<close>, \<open>d.values()\<close> is \<open>map snd d\<close>.
\<close>

type_synonym ('k, 'v) dict = "('k \<times> 'v) list"

definition dict_get :: "(string, 'v option) dict \<Rightarrow> string \<Rightarrow> 'v option" where
  \<comment> \<open>\<open>d.get(k)\<close> on a dict of Optional values: a missing key and a stored None both give None\<close>
  "dict_get d k = (case map_of d k of None \<Rightarrow> None | Some v \<Rightarrow> v)"

text \<open>
  A stored row is the dict of one SQLite row; the worker only ever reads it with
  \<open>r.get(column)\<close>, so a row is modelled by that lookup (NULL and a missing column are None).
\<close>

type_synonym row = "string \<Rightarrow> real option"

record fact =
  ts_from :: real
  ts_to :: real
  src :: string
  spl_max :: "real option"
  lmax_max :: "real option"
  leq_1s_avg :: "real option"
  leq_60s_last :: "real option"
  bands_max :: "(string, real option) dict"
  leq_avg :: "real option"
  exceeded_levels :: "(string, bool) dict"
  exceeded_bands :: "(string, bool) dict"

datatype event_type = EvALERT | EvRECOVERY

record exceeded_view =
  ex_levels :: "(string, bool) dict"
  ex_bands :: "(string, bool) dict"

record thresholds_view =
  thr_levels :: "(string, real option) dict"
  thr_bands :: "(string, real) dict"

record event =
  etype :: event_type
  ev_src :: string
  ts_first :: real
  ts_last :: real
  levels :: "(string, real option) dict"
  octaves :: "(string, real option) dict"
  exceeded :: exceeded_view
  thresholds :: thresholds_view
  samples :: int
  window_sec :: real

text \<open>The fields of \<open>Config\<close> that the worker, the evaluator and the state machine read.\<close>

record config =
  window_seconds :: int
  limit_last_u :: int
  limit_last_a :: int
  analog_weight_type :: "string option"
  umik_thr_spl :: "real option"
  umik_thr_leq_1s :: "real option"
  umik_thr_leq_60s :: "real option"
  umik_thr_lmax :: "real option"
  analog_thr_spl :: "real option"
  analog_thr_leq :: "real option"
  analog_thr_lmax :: "real option"
  trigger_hold_ms :: int
  recover_hold_ms :: int
  cooldown_ms :: int
  retrigger_gap_ms :: int
  consecutive_required :: int
  send_recovery :: bool
  umik_thr_bands :: "(string, real) dict"

section \<open>Threshold evaluator (rules/thresholds.py)\<close>

definition level_check ::
  "string \<Rightarrow> real option \<Rightarrow> real option \<Rightarrow> (string, bool) dict \<Rightarrow> (string, bool) dict" where
  \<comment> \<open>\<open>if thr is not None: exceeded_levels[name] = (val is not None and val > thr)\<close>\<close>
  "level_check name val thr acc =
     (case thr of
        None \<Rightarrow> acc
      | Some t \<Rightarrow> AList.update name (case val of None \<Rightarrow> False | Some v \<Rightarrow> v > t) acc)"

fun bands_loop ::
  "(string, real) dict \<Rightarrow> (string, real option) dict \<Rightarrow> (string, bool) dict \<Rightarrow> (string, bool) dict" where
  \<comment> \<open>\<open>for band, thr in config.umik_thr_bands.items(): ...\<close>\<close>
  "bands_loop [] bmax acc = acc"
| "bands_loop ((band, thr) # items) bmax acc =
     (case dict_get bmax band of
        None \<Rightarrow> bands_loop items bmax acc
      | Some val \<Rightarrow> bands_loop items bmax (AList.update band (val > thr) acc))"

definition check_levels_and_bands :: "fact \<Rightarrow> config \<Rightarrow> fact \<times> string list" where
  \<comment> \<open>returns the annotated fact and the warnings written to the log\<close>
  "check_levels_and_bands f cfg =
     (if src f = ''UMIK'' then
        (f\<lparr>exceeded_levels :=
              level_check ''lmax'' (lmax_max f) (umik_thr_lmax cfg)
                (level_check ''leq_60s'' (leq_60s_last f) (umik_thr_leq_60s cfg)
                  (level_check ''leq_1s'' (leq_1s_avg f) (umik_thr_leq_1s cfg)
                    (level_check ''spl'' (spl_max f) (umik_thr_spl cfg) []))),
            exceeded_bands := bands_loop (umik_thr_bands cfg) (bands_max f) []\<rparr>, [])
      else if src f = ''ANALOG'' then
        (f\<lparr>exceeded_levels :=
              level_check ''lmax'' (lmax_max f) (analog_thr_lmax cfg)
                (level_check ''leq'' (leq_avg f) (analog_thr_leq cfg)
                  (level_check ''spl'' (spl_max f) (analog_thr_spl cfg) [])),
            exceeded_bands := []\<rparr>, [])
      else
        (f\<lparr>exceeded_levels := [], exceeded_bands := []\<rparr>, [''Unknown fact.src: '' @ src f]))"

primrec py_any :: "bool list \<Rightarrow> bool" where
  "py_any [] = False"
| "py_any (b # bs) = (if b then True else py_any bs)"

definition is_exceeded :: "fact \<Rightarrow> bool \<times> (string, bool) dict \<times> (string, bool) dict" where
  "is_exceeded f =
     (py_any (map snd (exceeded_levels f)) \<or> py_any (map snd (exceeded_bands f)),
      exceeded_levels f, exceeded_bands f)"

section \<open>Hysteresis state machine (rules/state_machine.py)\<close>

datatype fsm_state = NORMAL | ALERT | COOLDOWN

record state_machine =
  sm_src :: string
  state :: fsm_state
  last_transition :: real
  active_since :: "real option"
  recovery_since :: "real option"
  consec_hit :: int
  consec_ok :: int
  last_alert_at_ms :: "real option"

definition StateMachine_init :: "string \<Rightarrow> real \<Rightarrow> state_machine" where
  \<comment> \<open>\<open>__init__\<close>; the second argument is the reading of \<open>time.time()\<close> at construction\<close>
  "StateMachine_init s t0 =
     \<lparr>sm_src = s, state = NORMAL, last_transition = t0, active_since = None,
      recovery_since = None, consec_hit = 0, consec_ok = 0, last_alert_at_ms = None\<rparr>"

definition win_seconds :: "fact \<Rightarrow> real" where
  "win_seconds f = max 0 (ts_to f - ts_from f)"

definition make_event ::
  "state_machine \<Rightarrow> event_type \<Rightarrow> fact \<Rightarrow> thresholds_view \<Rightarrow>
     (string, bool) dict \<Rightarrow> (string, bool) dict \<Rightarrow> event" where
  "make_event sm ty f thr xl xb =
     \<lparr>etype = ty, ev_src = sm_src sm, ts_first = ts_from f, ts_last = ts_to f,
      levels = [(''spl_max'', spl_max f), (''lmax_max'', lmax_max f),
                (''leq_1s_avg'', leq_1s_avg f), (''leq_60s_last'', leq_60s_last f),
                (''leq_avg'', leq_avg f)],
      octaves = (if sm_src sm = ''UMIK'' then bands_max f else []),
      exceeded = \<lparr>ex_levels = xl, ex_bands = xb\<rparr>,
      thresholds = thr,
      samples = 0,
      window_sec = win_seconds f\<rparr>"

definition update_counters :: "real \<Rightarrow> bool \<Rightarrow> state_machine \<Rightarrow> state_machine" where
  \<comment> \<open>the run-length block at the head of \<open>step\<close>\<close>
  "update_counters now flag sm =
     (if flag then
        sm\<lparr>consec_hit := consec_hit sm + 1, consec_ok := 0,
           active_since := (case active_since sm of None \<Rightarrow> Some now | Some a \<Rightarrow> Some a)\<rparr>
      else
        sm\<lparr>consec_ok := consec_ok sm + 1, consec_hit := 0,
           recovery_since := (case recovery_since sm of None \<Rightarrow> Some now | Some r \<Rightarrow> Some r),
           active_since := None\<rparr>)"

text \<open>
  \<open>step\<close> reads the clock twice: \<open>now = time.time()\<close> and then
  \<open>now_ms = time.time() * 1000.0\<close>. The two readings are the arguments \<open>t1\<close> and \<open>t2\<close>.
\<close>

definition step ::
  "config \<Rightarrow> real \<Rightarrow> real \<Rightarrow> state_machine \<Rightarrow> fact \<Rightarrow> thresholds_view \<Rightarrow>
     state_machine \<times> event option" where
  "step cfg t1 t2 sm0 f thr =
     (let now = t1;
          now_ms = t2 * 1000;
          (flag, xl, xb) = is_exceeded f;
          sm = update_counters now flag sm0;
          hold_trig = real_of_int (trigger_hold_ms cfg);
          hold_rec = real_of_int (recover_hold_ms cfg);
          cooldown = real_of_int (cooldown_ms cfg);
          need_seq = consecutive_required cfg;
          retrigger_gap = real_of_int (retrigger_gap_ms cfg)
      in case state sm of
           NORMAL \<Rightarrow>
             (let hit_long_enough =
                    (case active_since sm of None \<Rightarrow> False
                     | Some a \<Rightarrow> (now - a) * 1000 \<ge> hold_trig);
                  enough_seq = (consec_hit sm \<ge> need_seq);
                  gap_ok =
                    (case last_alert_at_ms sm of None \<Rightarrow> True
                     | Some l \<Rightarrow> now_ms - l \<ge> retrigger_gap)
              in if flag \<and> hit_long_enough \<and> enough_seq \<and> gap_ok then
                   (let sm1 = sm\<lparr>state := ALERT, last_transition := now,
                                  last_alert_at_ms := Some now_ms, recovery_since := None\<rparr>;
                        ev = make_event sm1 EvALERT f thr xl xb
                    in (sm1\<lparr>state := COOLDOWN, last_transition := now\<rparr>, Some ev))
                 else (sm, None))
         | ALERT \<Rightarrow>
             (if \<not> flag \<and>
                 (case recovery_since sm of None \<Rightarrow> False
                  | Some r \<Rightarrow> (now - r) * 1000 \<ge> hold_rec) then
                (let sm1 = sm\<lparr>state := COOLDOWN, last_transition := now\<rparr>
                 in if send_recovery cfg
                    then (sm1, Some (make_event sm1 EvRECOVERY f thr xl xb))
                    else (sm1, None))
              else (sm, None))
         | COOLDOWN \<Rightarrow>
             (if (now - last_transition sm) * 1000 \<ge> cooldown then
                (sm\<lparr>state := NORMAL, active_since := None, recovery_since := None,
                    consec_hit := 0, consec_ok := 0, last_transition := now\<rparr>, None)
              else (sm, None)))"

text \<open>One input of \<open>step\<close>: the two clock readings, the fact and the threshold snapshot.\<close>

type_synonym step_input = "real \<times> real \<times> fact \<times> thresholds_view"

fun run_steps :: "config \<Rightarrow> state_machine \<Rightarrow> step_input list \<Rightarrow> state_machine \<times> event option list" where
  "run_steps cfg sm [] = (sm, [])"
| "run_steps cfg sm ((t1, t2, f, thr) # rest) =
     (let (sm1, ev) = step cfg t1 t2 sm f thr;
          (sm2, evs) = run_steps cfg sm1 rest
      in (sm2, ev # evs))"

fun alert_times :: "config \<Rightarrow> state_machine \<Rightarrow> step_input list \<Rightarrow> real list" where
  \<comment> \<open>the \<open>now_ms\<close> readings of the calls of a run that returned an ALERT event\<close>
  "alert_times cfg sm [] = []"
| "alert_times cfg sm ((t1, t2, f, thr) # rest) =
     (let (sm1, ev) = step cfg t1 t2 sm f thr
      in (case ev of
            None \<Rightarrow> alert_times cfg sm1 rest
          | Some e \<Rightarrow>
              (if etype e = EvALERT then (t2 * 1000) # alert_times cfg sm1 rest
               else alert_times cfg sm1 rest)))"

section \<open>Source worker and aggregator (workers/device_worker.py)\<close>

primrec not_none :: "'a option list \<Rightarrow> 'a list" where
  \<comment> \<open>\<open>[v for v in values if v is not None]\<close>\<close>
  "not_none [] = []"
| "not_none (v # vs) = (case v of None \<Rightarrow> not_none vs | Some x \<Rightarrow> x # not_none vs)"

primrec py_max :: "real \<Rightarrow> real list \<Rightarrow> real" where
  \<comment> \<open>\<open>max\<close> of a non-empty list: keep the running maximum, replace it on a greater item\<close>
  "py_max m [] = m"
| "py_max m (v # vs) = py_max (if v > m then v else m) vs"

definition safe_max :: "real option list \<Rightarrow> real option" where
  "safe_max values =
     (case not_none values of [] \<Rightarrow> None | v # vals \<Rightarrow> Some (py_max v vals))"

definition safe_avg :: "real option list \<Rightarrow> real option" where
  "safe_avg values =
     (let vals = not_none values
      in if vals = [] then None else Some (sum_list vals / real (length vals)))"

primrec leq_60s_scan :: "row list \<Rightarrow> real option" where
  \<comment> \<open>the \<open>for r in rows: ... break\<close> loop of \<open>_make_fact\<close>\<close>
  "leq_60s_scan [] = None"
| "leq_60s_scan (r # rows) =
     (case r ''leq_60s'' of Some val \<Rightarrow> Some val | None \<Rightarrow> leq_60s_scan rows)"

definition band_columns :: "string list" where
  "band_columns =
     [''31.5_Hz'', ''63.0_Hz'', ''125.0_Hz'', ''250.0_Hz'', ''500.0_Hz'',
      ''1000.0_Hz'', ''2000.0_Hz'', ''4000.0_Hz'', ''8000.0_Hz'']"

primrec bands_fill ::
  "string list \<Rightarrow> row list \<Rightarrow> (string, real option) dict \<Rightarrow> (string, real option) dict" where
  \<comment> \<open>\<open>for col in (...): bands[col] = _safe_max([r.get(col) for r in rows])\<close>\<close>
  "bands_fill [] rows bands = bands"
| "bands_fill (col # cols) rows bands =
     bands_fill cols rows (AList.update col (safe_max (map (\<lambda>r. r col) rows)) bands)"

definition make_fact :: "string \<Rightarrow> row list \<Rightarrow> real \<Rightarrow> real \<Rightarrow> fact" where
  "make_fact knd rows tf tt =
     (if knd = ''UMIK'' then
        \<lparr>ts_from = tf, ts_to = tt, src = ''UMIK'',
         spl_max = safe_max (map (\<lambda>r. r ''spl'') rows),
         lmax_max = safe_max (map (\<lambda>r. r ''lmax'') rows),
         leq_1s_avg = safe_avg (map (\<lambda>r. r ''leq_1s'') rows),
         leq_60s_last = leq_60s_scan rows,
         bands_max = bands_fill band_columns rows [],
         leq_avg = None,
         exceeded_levels = [], exceeded_bands = []\<rparr>
      else
        \<lparr>ts_from = tf, ts_to = tt, src = ''ANALOG'',
         spl_max = safe_max (map (\<lambda>r. r ''spl'') rows),
         lmax_max = safe_max (map (\<lambda>r. r ''lmax'') rows),
         leq_1s_avg = None,
         leq_60s_last = None,
         bands_max = [],
         leq_avg = safe_avg (map (\<lambda>r. r ''leq'') rows),
         exceeded_levels = [], exceeded_bands = []\<rparr>)"

definition make_thresholds_view :: "config \<Rightarrow> string \<Rightarrow> thresholds_view" where
  \<comment> \<open>the dict \<open>thresholds_view\<close> built in \<open>poll\<close>\<close>
  "make_thresholds_view cfg knd =
     \<lparr>thr_levels =
        [(''spl'', if knd = ''UMIK'' then umik_thr_spl cfg else analog_thr_spl cfg),
         (''leq_1s'', if knd = ''UMIK'' then umik_thr_leq_1s cfg else None),
         (''leq_60s'', if knd = ''UMIK'' then umik_thr_leq_60s cfg else None),
         (''leq'', if knd = ''ANALOG'' then analog_thr_leq cfg else None),
         (''lmax'', if knd = ''UMIK'' then umik_thr_lmax cfg else analog_thr_lmax cfg)],
      thr_bands = (if knd = ''UMIK'' then umik_thr_bands cfg else [])\<rparr>"

text \<open>
  The store is an external collaborator: each call either raises or returns. A poll sees
  the store as it is at that moment, so the store is an input of every poll, together with
  the two clock readings that \<open>step\<close> takes.
\<close>

datatype py_exception = Exception

record db_client =
  latest_ts :: "string \<Rightarrow> py_exception + real option"
  fetch_umik_window :: "real \<Rightarrow> real \<Rightarrow> int \<Rightarrow> py_exception + row list"
  fetch_analog_window :: "real \<Rightarrow> real \<Rightarrow> int \<Rightarrow> string option \<Rightarrow> py_exception + row list"

record poll_env =
  db :: db_client
  time1 :: real
  time2 :: real

record device_worker =
  kind :: string
  stopped :: bool
  fsm :: state_machine
  last_anchor :: "real option"

definition DeviceWorker_init :: "string \<Rightarrow> real \<Rightarrow> device_worker" where
  "DeviceWorker_init knd t0 =
     \<lparr>kind = knd, stopped = False, fsm = StateMachine_init knd t0, last_anchor = None\<rparr>"

definition latest_anchor :: "db_client \<Rightarrow> string \<Rightarrow> py_exception + real option" where
  "latest_anchor d knd =
     latest_ts d (if knd = ''UMIK'' then ''measurements'' else ''weighted_measurements'')"

text \<open>
  Every way \<open>poll\<close> returns. \<open>Evaluated n f ev\<close> is the full path: \<open>n\<close> rows were
  aggregated into the annotated fact \<open>f\<close>, the state machine was stepped, and \<open>ev\<close> is the
  event handed to \<open>notifier.send\<close> (an exception of \<open>send\<close> is caught and only logged).
\<close>

datatype poll_outcome =
  Stopped | AnchorReadFailed | NoData | AnchorUnchanged | FetchFailed | NoRows
  | Evaluated nat fact "event option"

definition poll :: "config \<Rightarrow> poll_env \<Rightarrow> real \<Rightarrow> device_worker \<Rightarrow> device_worker \<times> poll_outcome" where
  "poll cfg env window w =
     (if stopped w then (w, Stopped)
      else case latest_anchor (db env) (kind w) of
        Inl e \<Rightarrow> (w, AnchorReadFailed)
      | Inr None \<Rightarrow> (w, NoData)
      | Inr (Some anchor) \<Rightarrow>
          (if (case last_anchor w of None \<Rightarrow> False | Some l \<Rightarrow> anchor \<le> l)
           then (w, AnchorUnchanged)
           else
             (let w1 = w\<lparr>last_anchor := Some anchor\<rparr>;
                  tt = anchor;
                  tf0 = tt - window;
                  tf = (if tf0 \<ge> tt then tt - 1 else tf0)
              in case (if kind w1 = ''UMIK''
                       then fetch_umik_window (db env) tf tt (limit_last_u cfg)
                       else fetch_analog_window (db env) tf tt (limit_last_a cfg)
                              (case analog_weight_type cfg of
                                 None \<Rightarrow> None
                               | Some s \<Rightarrow> if s = [] then None else Some s)) of
                   Inl e \<Rightarrow> (w1, FetchFailed)
                 | Inr rows \<Rightarrow>
                     (if rows = [] then (w1, NoRows)
                      else
                        (let f = fst (check_levels_and_bands (make_fact (kind w1) rows tf tt) cfg);
                             (sm, ev) = step cfg (time1 env) (time2 env) (fsm w1) f
                                          (make_thresholds_view cfg (kind w1))
                         in (w1\<lparr>fsm := sm\<rparr>, Evaluated (length rows) f ev))))))"

fun run_polls ::
  "config \<Rightarrow> device_worker \<Rightarrow> (real \<times> poll_env) list \<Rightarrow> device_worker \<times> poll_outcome list" where
  \<comment> \<open>successive polls of one worker, as the scheduler's ticks issue them\<close>
  "run_polls cfg w [] = (w, [])"
| "run_polls cfg w ((window, env) # rest) =
     (let (w1, out) = poll cfg env window w;
          (w2, outs) = run_polls cfg w1 rest
      in (w2, out # outs))"

primrec evaluated_anchors :: "poll_outcome list \<Rightarrow> real list" where
  \<comment> \<open>the anchors (\<open>ts_to\<close>) of the polls that aggregated, evaluated and stepped\<close>
  "evaluated_anchors [] = []"
| "evaluated_anchors (out # outs) =
     (case out of
        Evaluated n f ev \<Rightarrow> ts_to f # evaluated_anchors outs
      | _ \<Rightarrow> evaluated_anchors outs)"

section \<open>The specification's vocabulary\<close>

text \<open>
  The threshold configured for a level or band name of a source is the entry of the
  threshold snapshot that the worker builds for that source; the aggregate that belongs to
  a level name is the fact's field of that metric.
\<close>

definition level_threshold :: "config \<Rightarrow> string \<Rightarrow> string \<Rightarrow> real option" where
  "level_threshold cfg knd name = dict_get (thr_levels (make_thresholds_view cfg knd)) name"

definition band_threshold :: "config \<Rightarrow> string \<Rightarrow> string \<Rightarrow> real option" where
  "band_threshold cfg knd band = map_of (thr_bands (make_thresholds_view cfg knd)) band"

definition level_aggregate :: "fact \<Rightarrow> string \<Rightarrow> real option" where
  "level_aggregate f name =
     (if name = ''spl'' then spl_max f
      else if name = ''leq_1s'' then leq_1s_avg f
      else if name = ''leq_60s'' then leq_60s_last f
      else if name = ''leq'' then leq_avg f
      else if name = ''lmax'' then lmax_max f
      else None)"

text \<open>
  The values of a column that are present (not null), in the order of the rows, and the
  three aggregates as the specification words them: null on no value, else the greatest
  value, the mean, or the first value.
\<close>

definition present_values :: "string \<Rightarrow> row list \<Rightarrow> real list" where
  "present_values col rows = List.map_filter (\<lambda>r. r col) rows"

definition null_or_max :: "real list \<Rightarrow> real option" where
  "null_or_max vals = (if vals = [] then None else Some (Max (set vals)))"

definition null_or_avg :: "real list \<Rightarrow> real option" where
  "null_or_avg vals = (if vals = [] then None else Some (sum_list vals / real (length vals)))"

definition null_or_first :: "real list \<Rightarrow> real option" where
  "null_or_first vals = (case vals of [] \<Rightarrow> None | v # _ \<Rightarrow> Some v)"

text \<open>
  The history behind the state machine's bookkeeping, read off the polls of a run.
  \<open>exceed_run\<close> lists the clock readings (\<open>now\<close>) of the polls of the current exceeding
  run: the exceeding polls in a row up to the latest poll, counted afresh after a poll at
  which the machine returned from COOLDOWN to NORMAL; a quiet poll empties it.
  \<open>cooldown_entry\<close> is the clock reading of the poll at which the machine entered the
  COOLDOWN it is in (none when it is not in COOLDOWN). Both take the value before the
  run as their last argument.
\<close>

fun exceed_run :: "config \<Rightarrow> state_machine \<Rightarrow> step_input list \<Rightarrow> real list \<Rightarrow> real list" where
  "exceed_run cfg sm [] run = run"
| "exceed_run cfg sm ((t1, t2, f, thr) # rest) run =
     (let sm1 = fst (step cfg t1 t2 sm f thr)
      in exceed_run cfg sm1 rest
           (if state sm = COOLDOWN \<and> state sm1 = NORMAL then []
            else if fst (is_exceeded f) then run @ [t1]
            else []))"

fun cooldown_entry ::
  "config \<Rightarrow> state_machine \<Rightarrow> step_input list \<Rightarrow> real option \<Rightarrow> real option" where
  "cooldown_entry cfg sm [] entry = entry"
| "cooldown_entry cfg sm ((t1, t2, f, thr) # rest) entry =
     (let sm1 = fst (step cfg t1 t2 sm f thr)
      in cooldown_entry cfg sm1 rest
           (if state sm1 = COOLDOWN then (if state sm = COOLDOWN then entry else Some t1)
            else None))"

text \<open>
  The window start that \<open>poll\<close> computes from the anchor, and the fetch it then makes
  inside its \<open>try\<close> block.
\<close>

definition window_start :: "real \<Rightarrow> real \<Rightarrow> real" where
  "window_start anchor window =
     (if anchor - window \<ge> anchor then anchor - 1 else anchor - window)"

definition fetch_window ::
  "config \<Rightarrow> db_client \<Rightarrow> string \<Rightarrow> real \<Rightarrow> real \<Rightarrow> py_exception + row list" where
  "fetch_window cfg d knd tf tt =
     (if knd = ''UMIK''
      then fetch_umik_window d tf tt (limit_last_u cfg)
      else fetch_analog_window d tf tt (limit_last_a cfg)
             (case analog_weight_type cfg of
                None \<Rightarrow> None
              | Some s \<Rightarrow> if s = [] then None else Some s))"

section \<open>Example inputs\<close>

text \<open>
  The configuration of the specification's scenarios: SPL threshold 70, hold 1000 ms,
  three consecutive polls, cooldown 3000 ms, retrigger gap 5000 ms; two band thresholds.
\<close>

definition demo_cfg :: config where
  "demo_cfg =
     \<lparr>window_seconds = 5, limit_last_u = 200, limit_last_a = 200, analog_weight_type = None,
      umik_thr_spl = Some 70, umik_thr_leq_1s = None, umik_thr_leq_60s = None,
      umik_thr_lmax = Some 90,
      analog_thr_spl = Some 70, analog_thr_leq = None, analog_thr_lmax = None,
      trigger_hold_ms = 1000, recover_hold_ms = 2000, cooldown_ms = 3000,
      retrigger_gap_ms = 5000, consecutive_required = 3, send_recovery = True,
      umik_thr_bands = [(''63.0_Hz'', 40), (''125.0_Hz'', 50)]\<rparr>"

text \<open>
  Three rows, most recent first. The newest has no long-window average; no row has a peak
  level or a 125 Hz band value.
\<close>

definition demo_rows :: "row list" where
  "demo_rows =
     [[''spl'' \<mapsto> 75],
      [''spl'' \<mapsto> 60, ''leq_60s'' \<mapsto> 55, ''63.0_Hz'' \<mapsto> 45],
      [''leq_60s'' \<mapsto> 50, ''leq_1s'' \<mapsto> 58]]"

definition demo_window :: fact where
  "demo_window = make_fact ''UMIK'' demo_rows 95 100"

definition demo_fact :: fact where
  "demo_fact = fst (check_levels_and_bands demo_window demo_cfg)"

definition quiet_fact :: fact where
  "quiet_fact =
     fst (check_levels_and_bands (make_fact ''UMIK'' [[''spl'' \<mapsto> 50]] 95 100) demo_cfg)"

definition stray_fact :: fact where
  \<comment> \<open>a window whose source identity is neither known source\<close>
  "stray_fact = demo_window\<lparr>src := ''MIC3''\<rparr>"

definition demo_thr :: thresholds_view where
  "demo_thr = make_thresholds_view demo_cfg ''UMIK''"

definition demo_steps :: "step_input list" where
  \<comment> \<open>nine exceeding polls, by the clock in seconds\<close>
  "demo_steps =
     map (\<lambda>t. (t, t, demo_fact, demo_thr)) [0, 1/2, 1, 4, 9/2, 5, 11/2, 6, 13/2]"

definition store_with :: "real \<Rightarrow> row list \<Rightarrow> db_client" where
  \<comment> \<open>a store whose newest timestamp is \<open>a\<close> and whose windows hold \<open>rows\<close>\<close>
  "store_with a rows =
     \<lparr>latest_ts = (\<lambda>table. Inr (Some a)),
      fetch_umik_window = (\<lambda>tf tt limit. Inr rows),
      fetch_analog_window = (\<lambda>tf tt limit wt. Inr rows)\<rparr>"

definition store_failing :: "real \<Rightarrow> db_client" where
  \<comment> \<open>a store whose newest timestamp is \<open>a\<close> and whose window fetch raises\<close>
  "store_failing a =
     \<lparr>latest_ts = (\<lambda>table. Inr (Some a)),
      fetch_umik_window = (\<lambda>tf tt limit. Inl Exception),
      fetch_analog_window = (\<lambda>tf tt limit wt. Inl Exception)\<rparr>"

definition env_at :: "db_client \<Rightarrow> real \<Rightarrow> poll_env" where
  "env_at d t = \<lparr>db = d, time1 = t, time2 = t\<rparr>"

definition eager_cfg :: config where
  \<comment> \<open>alert on the first exceeding poll\<close>
  "eager_cfg = demo_cfg\<lparr>trigger_hold_ms := 0, consecutive_required := 1\<rparr>"

definition demo_worker :: device_worker where
  "demo_worker = DeviceWorker_init ''UMIK'' 0"

definition loud_step :: "real \<Rightarrow> step_input" where
  \<comment> \<open>a poll at clock \<open>t\<close> whose window exceeds\<close>
  "loud_step t = (t, t, demo_fact, demo_thr)"

definition quiet_step :: "real \<Rightarrow> step_input" where
  \<comment> \<open>a poll at clock \<open>t\<close> whose window is within thresholds\<close>
  "quiet_step t = (t, t, quiet_fact, demo_thr)"

definition analog_worker :: device_worker where
  "analog_worker = DeviceWorker_init ''ANALOG'' 0"

section \<open>The threshold evaluator\<close>

lemma map_of_level_check:
  "map_of (level_check name val thr acc) k =
     (if k = name then
        (case thr of None \<Rightarrow> map_of acc k
         | Some t \<Rightarrow> Some (case val of None \<Rightarrow> False | Some v \<Rightarrow> v > t))
      else map_of acc k)"
  by (simp add: level_check_def update_conv' split: option.splits)

lemma distinct_level_check:
  "distinct (map fst acc) \<Longrightarrow> distinct (map fst (level_check name val thr acc))"
  by (simp add: level_check_def distinct_update split: option.splits)

lemma distinct_bands_loop:
  "distinct (map fst acc) \<Longrightarrow> distinct (map fst (bands_loop items bmax acc))"
  by (induction items bmax acc rule: bands_loop.induct)
     (simp_all add: distinct_update split: option.splits)

lemma map_of_bands_loop:
  "distinct (map fst items) \<Longrightarrow>
   map_of (bands_loop items bmax acc) b =
     (case map_of items b of
        None \<Rightarrow> map_of acc b
      | Some t \<Rightarrow> (case dict_get bmax b of None \<Rightarrow> map_of acc b | Some v \<Rightarrow> Some (v > t)))"
proof (induction items bmax acc rule: bands_loop.induct)
  case (1 bmax acc)
  then show ?case by simp
next
  case (2 band thr items bmax acc)
  from "2.prems" have d: "distinct (map fst items)" and nb: "band \<notin> fst ` set items" by auto
  from nb have none: "map_of items band = None" by (simp add: map_of_eq_None_iff)
  show ?case
  proof (cases "dict_get bmax band")
    case None
    with "2.IH"(1)[OF None d] none show ?thesis by (auto split: option.splits)
  next
    case (Some v)
    with "2.IH"(2)[OF Some d] none show ?thesis
      by (auto simp add: update_conv' split: option.splits)
  qed
qed

lemma py_any_set: "py_any bs \<longleftrightarrow> True \<in> set bs"
  by (induction bs) auto

lemma py_any_values:
  "distinct (map fst d) \<Longrightarrow> py_any (map snd d) \<longleftrightarrow> (\<exists>k. map_of d k = Some True)"
  by (force simp add: py_any_set)

lemma check_distinct:
  "distinct (map fst (exceeded_levels (fst (check_levels_and_bands f cfg))))"
  "distinct (map fst (exceeded_bands (fst (check_levels_and_bands f cfg))))"
  by (simp_all add: check_levels_and_bands_def distinct_level_check distinct_bands_loop)

lemma check_levels_map:
  assumes "src f = ''UMIK'' \<or> src f = ''ANALOG''"
  shows "map_of (exceeded_levels (fst (check_levels_and_bands f cfg))) name =
     (case level_threshold cfg (src f) name of
        None \<Rightarrow> None
      | Some t \<Rightarrow> Some (case level_aggregate f name of None \<Rightarrow> False | Some v \<Rightarrow> v > t))"
  using assms
  by (auto simp add: check_levels_and_bands_def map_of_level_check level_threshold_def
        make_thresholds_view_def dict_get_def level_aggregate_def split: option.splits)

lemma check_bands_map:
  assumes "src f = ''UMIK'' \<or> src f = ''ANALOG''" and "distinct (map fst (umik_thr_bands cfg))"
  shows "map_of (exceeded_bands (fst (check_levels_and_bands f cfg))) band =
     (case band_threshold cfg (src f) band of
        None \<Rightarrow> None
      | Some t \<Rightarrow> (case dict_get (bands_max f) band of None \<Rightarrow> None | Some v \<Rightarrow> Some (v > t)))"
  using assms
  by (auto simp add: check_levels_and_bands_def map_of_bands_loop band_threshold_def
        make_thresholds_view_def split: option.splits)

text \<open>
  C1 (as amended). For a fact of either known source and a band-threshold dict (keys
  unique, as in any dict): a level name is mapped to true iff its threshold is configured,
  its aggregate is present and the aggregate is strictly greater than the threshold; a
  level is absent from the result iff it has no configured threshold; a band is mapped to
  true under the same three conditions, but it is absent iff it has no configured
  threshold or no aggregate value in the window; and the overall flag is true iff some
  level or band entry of the result is true.
\<close>

theorem exceedance_result:
  assumes "src f = ''UMIK'' \<or> src f = ''ANALOG''"
    and "distinct (map fst (umik_thr_bands cfg))"
  shows "(map_of (exceeded_levels (fst (check_levels_and_bands f cfg))) name = Some True \<longleftrightarrow>
            (\<exists>t v. level_threshold cfg (src f) name = Some t \<and> level_aggregate f name = Some v \<and> v > t)) \<and>
         (map_of (exceeded_levels (fst (check_levels_and_bands f cfg))) name = None \<longleftrightarrow>
            level_threshold cfg (src f) name = None) \<and>
         (map_of (exceeded_bands (fst (check_levels_and_bands f cfg))) band = Some True \<longleftrightarrow>
            (\<exists>t v. band_threshold cfg (src f) band = Some t \<and> dict_get (bands_max f) band = Some v \<and> v > t)) \<and>
         (map_of (exceeded_bands (fst (check_levels_and_bands f cfg))) band = None \<longleftrightarrow>
            band_threshold cfg (src f) band = None \<or> dict_get (bands_max f) band = None) \<and>
         (fst (is_exceeded (fst (check_levels_and_bands f cfg))) \<longleftrightarrow>
            (\<exists>n. map_of (exceeded_levels (fst (check_levels_and_bands f cfg))) n = Some True) \<or>
            (\<exists>b. map_of (exceeded_bands (fst (check_levels_and_bands f cfg))) b = Some True))"
proof -
  have "fst (is_exceeded (fst (check_levels_and_bands f cfg))) \<longleftrightarrow>
            (\<exists>n. map_of (exceeded_levels (fst (check_levels_and_bands f cfg))) n = Some True) \<or>
            (\<exists>b. map_of (exceeded_bands (fst (check_levels_and_bands f cfg))) b = Some True)"
    by (simp add: is_exceeded_def py_any_values check_distinct)
  then show ?thesis
    unfolding check_levels_map[OF assms(1)] check_bands_map[OF assms]
    by (auto split: option.splits)
qed

text \<open>
  C8 (as amended). For a fact whose source identity is neither \<open>UMIK\<close> nor \<open>ANALOG\<close>
  the evaluator returns normally: it writes one warning to the log and hands back the fact
  with empty level and band results, so that the overall exceeded flag is false.
\<close>

theorem unknown_source_silent:
  assumes "src f \<noteq> ''UMIK''" and "src f \<noteq> ''ANALOG''"
  shows "check_levels_and_bands f cfg =
           (f\<lparr>exceeded_levels := [], exceeded_bands := []\<rparr>, [''Unknown fact.src: '' @ src f]) \<and>
         is_exceeded (fst (check_levels_and_bands f cfg)) = (False, [], [])"
  using assms by (simp add: check_levels_and_bands_def is_exceeded_def)

section \<open>The state machine\<close>

lemma update_counters_fields:
  "state (update_counters now flag sm) = state sm"
  "last_alert_at_ms (update_counters now flag sm) = last_alert_at_ms sm"
  "last_transition (update_counters now flag sm) = last_transition sm"
  "sm_src (update_counters now flag sm) = sm_src sm"
  "consec_hit (update_counters now flag sm) = (if flag then consec_hit sm + 1 else 0)"
  "active_since (update_counters now flag sm) =
     (if flag then (case active_since sm of None \<Rightarrow> Some now | Some a \<Rightarrow> Some a) else None)"
  by (simp_all add: update_counters_def)

lemma step_NORMAL:
  assumes "state sm = NORMAL"
  shows "step cfg t1 t2 sm f thr =
     (let flag = fst (is_exceeded f); sm1 = update_counters t1 flag sm in
      if flag \<and> (t1 - (case active_since sm of None \<Rightarrow> t1 | Some a \<Rightarrow> a)) * 1000 \<ge> real_of_int (trigger_hold_ms cfg)
         \<and> consec_hit sm + 1 \<ge> consecutive_required cfg
         \<and> (case last_alert_at_ms sm of None \<Rightarrow> True | Some l \<Rightarrow> t2 * 1000 - l \<ge> real_of_int (retrigger_gap_ms cfg))
      then (sm1\<lparr>state := COOLDOWN, last_transition := t1, last_alert_at_ms := Some (t2 * 1000), recovery_since := None\<rparr>,
            Some (make_event sm1 EvALERT f thr (exceeded_levels f) (exceeded_bands f)))
      else (sm1, None))"
  using assms
  by (auto simp add: step_def Let_def is_exceeded_def update_counters_fields make_event_def split: option.splits)

lemma step_COOLDOWN:
  assumes "state sm = COOLDOWN"
  shows "step cfg t1 t2 sm f thr =
     (let sm1 = update_counters t1 (fst (is_exceeded f)) sm in
      if (t1 - last_transition sm) * 1000 \<ge> real_of_int (cooldown_ms cfg)
      then (sm1\<lparr>state := NORMAL, active_since := None, recovery_since := None,
                consec_hit := 0, consec_ok := 0, last_transition := t1\<rparr>, None)
      else (sm1, None))"
  using assms
  by (simp add: step_def Let_def is_exceeded_def update_counters_fields)

lemma step_ALERT:
  assumes "state sm = ALERT"
  shows "state (fst (step cfg t1 t2 sm f thr)) \<noteq> NORMAL \<and>
         last_alert_at_ms (fst (step cfg t1 t2 sm f thr)) = last_alert_at_ms sm \<and>
         (\<forall>e. snd (step cfg t1 t2 sm f thr) = Some e \<longrightarrow> etype e = EvRECOVERY)"
  using assms
  by (simp add: step_def Let_def is_exceeded_def update_counters_fields make_event_def)

text \<open>
  What one call of \<open>step\<close> does in state NORMAL, in terms of the fields of the state
  before the call.
\<close>

lemma step_NORMAL_fires:
  assumes "state sm = NORMAL"
  shows "((\<exists>e. snd (step cfg t1 t2 sm f thr) = Some e \<and> etype e = EvALERT) \<longleftrightarrow>
            (fst (is_exceeded f) \<and>
             (t1 - (case active_since sm of None \<Rightarrow> t1 | Some a \<Rightarrow> a)) * 1000 \<ge> real_of_int (trigger_hold_ms cfg) \<and>
             consec_hit sm + 1 \<ge> consecutive_required cfg \<and>
             (last_alert_at_ms sm = None \<or>
              (\<exists>l. last_alert_at_ms sm = Some l \<and> t2 * 1000 - l \<ge> real_of_int (retrigger_gap_ms cfg))))) \<and>
         (snd (step cfg t1 t2 sm f thr) = None \<or>
            (\<exists>e. snd (step cfg t1 t2 sm f thr) = Some e \<and> etype e = EvALERT \<and>
               state (fst (step cfg t1 t2 sm f thr)) = COOLDOWN \<and>
               last_alert_at_ms (fst (step cfg t1 t2 sm f thr)) = Some (t2 * 1000) \<and>
               last_transition (fst (step cfg t1 t2 sm f thr)) = t1)) \<and>
         (snd (step cfg t1 t2 sm f thr) = None \<longrightarrow> state (fst (step cfg t1 t2 sm f thr)) = NORMAL \<and>
               last_alert_at_ms (fst (step cfg t1 t2 sm f thr)) = last_alert_at_ms sm)"
  unfolding step_NORMAL[OF assms]
  by (auto simp add: Let_def make_event_def update_counters_fields assms split: option.splits)

text \<open>
  What one call of \<open>step\<close> does in state COOLDOWN, in terms of the fields of the state
  before the call.
\<close>

lemma step_COOLDOWN_elapsed:
  assumes "state sm = COOLDOWN"
  shows "snd (step cfg t1 t2 sm f thr) = None \<and>
         ((t1 - last_transition sm) * 1000 \<ge> real_of_int (cooldown_ms cfg) \<longrightarrow>
            state (fst (step cfg t1 t2 sm f thr)) = NORMAL \<and>
            consec_hit (fst (step cfg t1 t2 sm f thr)) = 0 \<and>
            consec_ok (fst (step cfg t1 t2 sm f thr)) = 0 \<and>
            active_since (fst (step cfg t1 t2 sm f thr)) = None \<and>
            recovery_since (fst (step cfg t1 t2 sm f thr)) = None) \<and>
         ((t1 - last_transition sm) * 1000 < real_of_int (cooldown_ms cfg) \<longrightarrow>
            state (fst (step cfg t1 t2 sm f thr)) = COOLDOWN)"
  unfolding step_COOLDOWN[OF assms]
  by (simp add: Let_def update_counters_fields assms)

lemma step_not_ALERT:
  assumes "state sm \<noteq> ALERT"
  shows "state (fst (step cfg t1 t2 sm f thr)) \<noteq> ALERT \<and>
         (snd (step cfg t1 t2 sm f thr) = None \<or>
          (\<exists>e. snd (step cfg t1 t2 sm f thr) = Some e \<and> etype e = EvALERT))"
proof (cases "state sm")
  case NORMAL
  show ?thesis
    unfolding step_NORMAL[OF NORMAL]
    by (simp add: Let_def make_event_def update_counters_fields NORMAL)
next
  case ALERT
  with assms show ?thesis by simp
next
  case COOLDOWN
  show ?thesis
    unfolding step_COOLDOWN[OF COOLDOWN]
    by (simp add: Let_def update_counters_fields COOLDOWN)
qed

lemma run_steps_not_ALERT:
  "state sm \<noteq> ALERT \<Longrightarrow>
   state (fst (run_steps cfg sm inputs)) \<noteq> ALERT \<and>
   (\<forall>ev \<in> set (snd (run_steps cfg sm inputs)).
      ev = None \<or> (\<exists>e. ev = Some e \<and> etype e = EvALERT))"
proof (induction inputs arbitrary: sm)
  case Nil
  then show ?case by simp
next
  case (Cons i inputs)
  obtain t1 t2 f thr where i: "i = (t1, t2, f, thr)" by (cases i) auto
  obtain sm1 ev where s: "step cfg t1 t2 sm f thr = (sm1, ev)" by (cases "step cfg t1 t2 sm f thr")
  from step_not_ALERT[OF Cons.prems, of cfg t1 t2 f thr] s
  have 1: "state sm1 \<noteq> ALERT" and 2: "ev = None \<or> (\<exists>e. ev = Some e \<and> etype e = EvALERT)"
    by simp_all
  from Cons.IH[OF 1] 2 show ?case
    by (simp add: i s case_prod_beta)
qed

text \<open>
  C10. Starting from a freshly constructed state machine, after any finite sequence of
  \<open>step\<close> calls the state is NORMAL or COOLDOWN, and every call of the sequence returned
  either nothing or an ALERT event (never a RECOVERY event).
\<close>

theorem alert_state_transient:
  "state (fst (run_steps cfg (StateMachine_init s t0) inputs)) \<in> {NORMAL, COOLDOWN} \<and>
   (\<forall>ev \<in> set (snd (run_steps cfg (StateMachine_init s t0) inputs)).
      ev = None \<or> (\<exists>e. ev = Some e \<and> etype e = EvALERT))"
proof -
  have "state (StateMachine_init s t0) \<noteq> ALERT" by (simp add: StateMachine_init_def)
  from run_steps_not_ALERT[OF this, of cfg inputs] show ?thesis
    by (cases "state (fst (run_steps cfg (StateMachine_init s t0) inputs))") auto
qed

lemma step_alert_time:
  "(\<exists>e. snd (step cfg t1 t2 sm f thr) = Some e \<and> etype e = EvALERT) \<Longrightarrow>
     last_alert_at_ms (fst (step cfg t1 t2 sm f thr)) = Some (t2 * 1000) \<and>
     (case last_alert_at_ms sm of None \<Rightarrow> True
      | Some l \<Rightarrow> t2 * 1000 - l \<ge> real_of_int (retrigger_gap_ms cfg))"
proof (cases "state sm")
  case NORMAL
  assume "\<exists>e. snd (step cfg t1 t2 sm f thr) = Some e \<and> etype e = EvALERT"
  then show ?thesis
    unfolding step_NORMAL[OF NORMAL]
    by (auto simp add: Let_def update_counters_fields split: if_splits option.splits)
next
  case ALERT
  assume "\<exists>e. snd (step cfg t1 t2 sm f thr) = Some e \<and> etype e = EvALERT"
  with step_ALERT[OF ALERT, of cfg t1 t2 f thr] show ?thesis by auto
next
  case COOLDOWN
  assume "\<exists>e. snd (step cfg t1 t2 sm f thr) = Some e \<and> etype e = EvALERT"
  then show ?thesis
    unfolding step_COOLDOWN[OF COOLDOWN] by (simp add: Let_def split: if_splits)
qed

lemma step_no_alert_time:
  "\<not> (\<exists>e. snd (step cfg t1 t2 sm f thr) = Some e \<and> etype e = EvALERT) \<Longrightarrow>
     last_alert_at_ms (fst (step cfg t1 t2 sm f thr)) = last_alert_at_ms sm"
proof (cases "state sm")
  case NORMAL
  assume "\<not> (\<exists>e. snd (step cfg t1 t2 sm f thr) = Some e \<and> etype e = EvALERT)"
  then show ?thesis
    unfolding step_NORMAL[OF NORMAL]
    by (auto simp add: Let_def update_counters_fields make_event_def split: if_splits)
next
  case ALERT
  with step_ALERT[OF ALERT, of cfg t1 t2 f thr] show ?thesis by simp
next
  case COOLDOWN
  show ?thesis
    unfolding step_COOLDOWN[OF COOLDOWN] by (simp add: Let_def update_counters_fields)
qed

lemma alert_times_spaced:
  "successively (\<lambda>a b. b - a \<ge> real_of_int (retrigger_gap_ms cfg))
     (case last_alert_at_ms sm of
        None \<Rightarrow> alert_times cfg sm inputs
      | Some l \<Rightarrow> l # alert_times cfg sm inputs)"
proof (induction inputs arbitrary: sm)
  case Nil
  then show ?case by (simp split: option.splits)
next
  case (Cons i inputs)
  obtain t1 t2 f thr where i: "i = (t1, t2, f, thr)" by (cases i) auto
  obtain sm1 ev where s: "step cfg t1 t2 sm f thr = (sm1, ev)" by (cases "step cfg t1 t2 sm f thr")
  show ?case
  proof (cases "\<exists>e. ev = Some e \<and> etype e = EvALERT")
    case True
    with step_alert_time[of cfg t1 t2 sm f thr] s
    have l1: "last_alert_at_ms sm1 = Some (t2 * 1000)"
      and gap: "case last_alert_at_ms sm of None \<Rightarrow> True
                | Some l \<Rightarrow> t2 * 1000 - l \<ge> real_of_int (retrigger_gap_ms cfg)"
      by simp_all
    from Cons.IH[of sm1] l1
    have "successively (\<lambda>a b. b - a \<ge> real_of_int (retrigger_gap_ms cfg))
            (t2 * 1000 # alert_times cfg sm1 inputs)" by simp
    with True gap show ?thesis
      by (auto simp add: i s split: option.splits)
  next
    case False
    with step_no_alert_time[of cfg t1 t2 sm f thr] s
    have l1: "last_alert_at_ms sm1 = last_alert_at_ms sm" by simp
    from False have "alert_times cfg sm (i # inputs) = alert_times cfg sm1 inputs"
      by (cases ev) (auto simp add: i s)
    with Cons.IH[of sm1] l1 show ?thesis by (simp split: option.splits)
  qed
qed

text \<open>
  The recorded last-alert time is the history it stands for: on a run from construction it
  is empty exactly when no ALERT has been returned, and otherwise holds the time of the
  latest one.
\<close>

lemma last_alert_recorded_from:
  "last_alert_at_ms (fst (run_steps cfg sm inputs)) =
     (case alert_times cfg sm inputs of [] \<Rightarrow> last_alert_at_ms sm | t # ts \<Rightarrow> Some (last (t # ts)))"
proof (induction inputs arbitrary: sm)
  case Nil
  then show ?case by simp
next
  case (Cons i inputs)
  obtain t1 t2 f thr where i: "i = (t1, t2, f, thr)" by (cases i) auto
  obtain sm1 ev where s: "step cfg t1 t2 sm f thr = (sm1, ev)" by (cases "step cfg t1 t2 sm f thr")
  have r: "fst (run_steps cfg sm (i # inputs)) = fst (run_steps cfg sm1 inputs)"
    by (simp add: i s case_prod_beta)
  show ?case
  proof (cases "\<exists>e. ev = Some e \<and> etype e = EvALERT")
    case True
    with step_alert_time[of cfg t1 t2 sm f thr] s
    have l1: "last_alert_at_ms sm1 = Some (t2 * 1000)" by simp
    from True have a: "alert_times cfg sm (i # inputs) = t2 * 1000 # alert_times cfg sm1 inputs"
      by (auto simp add: i s)
    show ?thesis
      unfolding r a Cons.IH[of sm1] l1
      by (simp split: list.splits)
  next
    case False
    with step_no_alert_time[of cfg t1 t2 sm f thr] s
    have l1: "last_alert_at_ms sm1 = last_alert_at_ms sm" by simp
    from False have a: "alert_times cfg sm (i # inputs) = alert_times cfg sm1 inputs"
      by (cases ev) (auto simp add: i s)
    show ?thesis
      unfolding r a Cons.IH[of sm1] l1 by simp
  qed
qed

lemma last_alert_recorded:
  "last_alert_at_ms (fst (run_steps cfg (StateMachine_init s t0) inputs)) =
     (if alert_times cfg (StateMachine_init s t0) inputs = [] then None
      else Some (last (alert_times cfg (StateMachine_init s t0) inputs)))"
  unfolding last_alert_recorded_from
  by (simp add: StateMachine_init_def split: list.splits)

text \<open>
  The run-length counter and the exceedance start marker are the history they stand for:
  after any run from construction the counter is the number of polls of the current
  exceeding run and the marker is the clock reading of its first poll.
\<close>

lemma step_counters:
  "consec_hit (fst (step cfg t1 t2 sm f thr)) =
     (if state sm = COOLDOWN \<and> state (fst (step cfg t1 t2 sm f thr)) = NORMAL then 0
      else if fst (is_exceeded f) then consec_hit sm + 1 else 0)"
  "active_since (fst (step cfg t1 t2 sm f thr)) =
     (if state sm = COOLDOWN \<and> state (fst (step cfg t1 t2 sm f thr)) = NORMAL then None
      else if fst (is_exceeded f)
           then (case active_since sm of None \<Rightarrow> Some t1 | Some a \<Rightarrow> Some a)
           else None)"
proof -
  show "consec_hit (fst (step cfg t1 t2 sm f thr)) =
     (if state sm = COOLDOWN \<and> state (fst (step cfg t1 t2 sm f thr)) = NORMAL then 0
      else if fst (is_exceeded f) then consec_hit sm + 1 else 0)"
  proof (cases "state sm")
    case NORMAL
    show ?thesis unfolding step_NORMAL[OF NORMAL]
      by (simp add: Let_def update_counters_fields NORMAL)
  next
    case ALERT
    then show ?thesis
      by (simp add: step_def Let_def is_exceeded_def update_counters_fields)
  next
    case COOLDOWN
    show ?thesis unfolding step_COOLDOWN[OF COOLDOWN]
      by (simp add: Let_def update_counters_fields COOLDOWN)
  qed
  show "active_since (fst (step cfg t1 t2 sm f thr)) =
     (if state sm = COOLDOWN \<and> state (fst (step cfg t1 t2 sm f thr)) = NORMAL then None
      else if fst (is_exceeded f)
           then (case active_since sm of None \<Rightarrow> Some t1 | Some a \<Rightarrow> Some a)
           else None)"
  proof (cases "state sm")
    case NORMAL
    show ?thesis unfolding step_NORMAL[OF NORMAL]
      by (simp add: Let_def update_counters_fields NORMAL)
  next
    case ALERT
    then show ?thesis
      by (simp add: step_def Let_def is_exceeded_def update_counters_fields)
  next
    case COOLDOWN
    show ?thesis unfolding step_COOLDOWN[OF COOLDOWN]
      by (simp add: Let_def update_counters_fields COOLDOWN)
  qed
qed

lemma counters_track_run_from:
  "consec_hit sm = int (length run) \<Longrightarrow>
   active_since sm = (case run of [] \<Rightarrow> None | t # _ \<Rightarrow> Some t) \<Longrightarrow>
   consec_hit (fst (run_steps cfg sm inputs)) = int (length (exceed_run cfg sm inputs run)) \<and>
   active_since (fst (run_steps cfg sm inputs)) =
     (case exceed_run cfg sm inputs run of [] \<Rightarrow> None | t # _ \<Rightarrow> Some t)"
proof (induction inputs arbitrary: sm run)
  case Nil
  then show ?case by simp
next
  case (Cons i inputs)
  obtain t1 t2 f thr where i: "i = (t1, t2, f, thr)" by (cases i) auto
  define sm1 where "sm1 = fst (step cfg t1 t2 sm f thr)"
  define run1 where "run1 =
    (if state sm = COOLDOWN \<and> state sm1 = NORMAL then []
     else if fst (is_exceeded f) then run @ [t1] else [])"
  have c: "consec_hit sm1 = int (length run1)"
    unfolding sm1_def run1_def step_counters using Cons.prems(1) by simp
  have a: "active_since sm1 = (case run1 of [] \<Rightarrow> None | t # _ \<Rightarrow> Some t)"
    unfolding sm1_def run1_def step_counters using Cons.prems(2)
    by (cases run) simp_all
  have r: "fst (run_steps cfg sm (i # inputs)) = fst (run_steps cfg sm1 inputs)"
    by (simp add: i sm1_def case_prod_beta)
  have e: "exceed_run cfg sm (i # inputs) run = exceed_run cfg sm1 inputs run1"
    by (simp add: i sm1_def run1_def Let_def)
  from Cons.IH[OF c a] show ?case unfolding r e .
qed

lemma counters_track_run:
  "consec_hit (fst (run_steps cfg (StateMachine_init s t0) inputs)) =
     int (length (exceed_run cfg (StateMachine_init s t0) inputs [])) \<and>
   active_since (fst (run_steps cfg (StateMachine_init s t0) inputs)) =
     (case exceed_run cfg (StateMachine_init s t0) inputs [] of [] \<Rightarrow> None | t # _ \<Rightarrow> Some t)"
  by (rule counters_track_run_from) (simp_all add: StateMachine_init_def)

text \<open>
  C3. Take any run of polls from construction that leaves the machine in NORMAL, and the
  next call of \<open>step\<close>. It returns an ALERT event iff the poll is exceeding, the current
  exceeding run (this poll included) began at least \<open>trigger_hold_ms\<close> before this poll,
  that run (this poll included) has at least \<open>consecutive_required\<close> polls, and either no
  ALERT was returned in the run so far or at least \<open>retrigger_gap_ms\<close> has passed since the
  latest one. The call returns nothing or an ALERT; when it returns the ALERT, the emission
  time \<open>now_ms\<close> is recorded and the state after the call is COOLDOWN; when it returns
  nothing the state stays NORMAL.
\<close>

theorem step_normal_alert_iff:
  assumes "state (fst (run_steps cfg (StateMachine_init s t0) past)) = NORMAL"
  shows "((\<exists>e. snd (step cfg t1 t2 (fst (run_steps cfg (StateMachine_init s t0) past)) f thr) = Some e \<and>
               etype e = EvALERT) \<longleftrightarrow>
            (fst (is_exceeded f) \<and>
             (t1 - (case exceed_run cfg (StateMachine_init s t0) past [] of [] \<Rightarrow> t1 | t # _ \<Rightarrow> t)) * 1000
                \<ge> real_of_int (trigger_hold_ms cfg) \<and>
             int (length (exceed_run cfg (StateMachine_init s t0) past [])) + 1 \<ge> consecutive_required cfg \<and>
             (alert_times cfg (StateMachine_init s t0) past = [] \<or>
              alert_times cfg (StateMachine_init s t0) past \<noteq> [] \<and>
              t2 * 1000 - last (alert_times cfg (StateMachine_init s t0) past)
                \<ge> real_of_int (retrigger_gap_ms cfg)))) \<and>
         (snd (step cfg t1 t2 (fst (run_steps cfg (StateMachine_init s t0) past)) f thr) = None \<or>
            (\<exists>e. snd (step cfg t1 t2 (fst (run_steps cfg (StateMachine_init s t0) past)) f thr) = Some e \<and>
               etype e = EvALERT \<and>
               state (fst (step cfg t1 t2 (fst (run_steps cfg (StateMachine_init s t0) past)) f thr)) = COOLDOWN \<and>
               last_alert_at_ms (fst (step cfg t1 t2 (fst (run_steps cfg (StateMachine_init s t0) past)) f thr))
                 = Some (t2 * 1000) \<and>
               last_transition (fst (step cfg t1 t2 (fst (run_steps cfg (StateMachine_init s t0) past)) f thr))
                 = t1)) \<and>
         (snd (step cfg t1 t2 (fst (run_steps cfg (StateMachine_init s t0) past)) f thr) = None \<longrightarrow>
            state (fst (step cfg t1 t2 (fst (run_steps cfg (StateMachine_init s t0) past)) f thr)) = NORMAL \<and>
            last_alert_at_ms (fst (step cfg t1 t2 (fst (run_steps cfg (StateMachine_init s t0) past)) f thr)) =
              last_alert_at_ms (fst (run_steps cfg (StateMachine_init s t0) past)))"
proof -
  let ?I = "StateMachine_init s t0"
  let ?sm = "fst (run_steps cfg ?I past)"
  have c: "consec_hit ?sm = int (length (exceed_run cfg ?I past []))"
    and a: "active_since ?sm = (case exceed_run cfg ?I past [] of [] \<Rightarrow> None | t # _ \<Rightarrow> Some t)"
    using counters_track_run[of cfg s t0 past] by simp_all
  have l: "last_alert_at_ms ?sm =
             (if alert_times cfg ?I past = [] then None else Some (last (alert_times cfg ?I past)))"
    by (rule last_alert_recorded)
  have start: "(case active_since ?sm of None \<Rightarrow> t1 | Some a \<Rightarrow> a) =
                 (case exceed_run cfg ?I past [] of [] \<Rightarrow> t1 | t # _ \<Rightarrow> t)"
    unfolding a by (simp split: list.splits)
  have gap: "(last_alert_at_ms ?sm = None \<or>
              (\<exists>l. last_alert_at_ms ?sm = Some l \<and> t2 * 1000 - l \<ge> real_of_int (retrigger_gap_ms cfg))) \<longleftrightarrow>
             (alert_times cfg ?I past = [] \<or>
              alert_times cfg ?I past \<noteq> [] \<and>
              t2 * 1000 - last (alert_times cfg ?I past) \<ge> real_of_int (retrigger_gap_ms cfg))"
    unfolding l by simp
  from step_NORMAL_fires[OF assms, of cfg t1 t2 f thr]
  show ?thesis unfolding start gap c by simp
qed

text \<open>
  While the machine is in COOLDOWN its \<open>last_transition\<close> is the clock reading of the poll
  at which it entered that COOLDOWN: polls that stay in COOLDOWN do not move it.
\<close>

lemma step_transition_time:
  "state (fst (step cfg t1 t2 sm f thr)) = COOLDOWN \<Longrightarrow>
   last_transition (fst (step cfg t1 t2 sm f thr)) =
     (if state sm = COOLDOWN then last_transition sm else t1)"
proof (cases "state sm")
  case NORMAL
  assume "state (fst (step cfg t1 t2 sm f thr)) = COOLDOWN"
  then show ?thesis unfolding step_NORMAL[OF NORMAL]
    by (simp add: Let_def update_counters_fields NORMAL split: if_splits)
next
  case ALERT
  assume "state (fst (step cfg t1 t2 sm f thr)) = COOLDOWN"
  with ALERT show ?thesis
    by (simp add: step_def Let_def is_exceeded_def update_counters_fields split: if_splits)
next
  case COOLDOWN
  assume "state (fst (step cfg t1 t2 sm f thr)) = COOLDOWN"
  then show ?thesis unfolding step_COOLDOWN[OF COOLDOWN]
    by (simp add: Let_def update_counters_fields COOLDOWN split: if_splits)
qed

lemma cooldown_entry_tracks_from:
  "(state sm = COOLDOWN \<longrightarrow> entry = Some (last_transition sm)) \<Longrightarrow>
   state (fst (run_steps cfg sm inputs)) = COOLDOWN \<Longrightarrow>
   cooldown_entry cfg sm inputs entry = Some (last_transition (fst (run_steps cfg sm inputs)))"
proof (induction inputs arbitrary: sm entry)
  case Nil
  then show ?case by simp
next
  case (Cons i inputs)
  obtain t1 t2 f thr where i: "i = (t1, t2, f, thr)" by (cases i) auto
  define sm1 where "sm1 = fst (step cfg t1 t2 sm f thr)"
  define entry1 where "entry1 =
    (if state sm1 = COOLDOWN then (if state sm = COOLDOWN then entry else Some t1) else None)"
  have inv: "state sm1 = COOLDOWN \<longrightarrow> entry1 = Some (last_transition sm1)"
    using step_transition_time[of cfg t1 t2 sm f thr] Cons.prems(1)
    by (simp add: sm1_def entry1_def)
  have r: "fst (run_steps cfg sm (i # inputs)) = fst (run_steps cfg sm1 inputs)"
    by (simp add: i sm1_def case_prod_beta)
  have e: "cooldown_entry cfg sm (i # inputs) entry = cooldown_entry cfg sm1 inputs entry1"
    by (simp add: i sm1_def entry1_def Let_def)
  from Cons.prems(2) have "state (fst (run_steps cfg sm1 inputs)) = COOLDOWN" by (simp add: r)
  from Cons.IH[OF inv this] show ?case unfolding r e .
qed

lemma cooldown_entry_tracks:
  "state (fst (run_steps cfg (StateMachine_init s t0) inputs)) = COOLDOWN \<Longrightarrow>
   cooldown_entry cfg (StateMachine_init s t0) inputs None =
     Some (last_transition (fst (run_steps cfg (StateMachine_init s t0) inputs)))"
  by (rule cooldown_entry_tracks_from) (simp_all add: StateMachine_init_def)

text \<open>
  C6. Take any run of polls from construction that leaves the machine in COOLDOWN, entered
  at the poll with clock reading \<open>te\<close>, and the next call of \<open>step\<close>. It returns no event.
  If at least \<open>cooldown_ms\<close> has passed since \<open>te\<close>, the state after the call is NORMAL,
  both run-length counters are zero and both start markers are cleared, whatever the
  fact's exceedance flag; otherwise the state stays COOLDOWN.
\<close>

theorem step_cooldown:
  assumes "state (fst (run_steps cfg (StateMachine_init s t0) past)) = COOLDOWN"
  shows "\<exists>te. cooldown_entry cfg (StateMachine_init s t0) past None = Some te \<and>
           snd (step cfg t1 t2 (fst (run_steps cfg (StateMachine_init s t0) past)) f thr) = None \<and>
           ((t1 - te) * 1000 \<ge> real_of_int (cooldown_ms cfg) \<longrightarrow>
              state (fst (step cfg t1 t2 (fst (run_steps cfg (StateMachine_init s t0) past)) f thr)) = NORMAL \<and>
              consec_hit (fst (step cfg t1 t2 (fst (run_steps cfg (StateMachine_init s t0) past)) f thr)) = 0 \<and>
              consec_ok (fst (step cfg t1 t2 (fst (run_steps cfg (StateMachine_init s t0) past)) f thr)) = 0 \<and>
              active_since (fst (step cfg t1 t2 (fst (run_steps cfg (StateMachine_init s t0) past)) f thr)) = None \<and>
              recovery_since (fst (step cfg t1 t2 (fst (run_steps cfg (StateMachine_init s t0) past)) f thr)) = None) \<and>
           ((t1 - te) * 1000 < real_of_int (cooldown_ms cfg) \<longrightarrow>
              state (fst (step cfg t1 t2 (fst (run_steps cfg (StateMachine_init s t0) past)) f thr)) = COOLDOWN)"
proof -
  have e: "cooldown_entry cfg (StateMachine_init s t0) past None =
             Some (last_transition (fst (run_steps cfg (StateMachine_init s t0) past)))"
    by (rule cooldown_entry_tracks[OF assms])
  from step_COOLDOWN_elapsed[OF assms, of cfg t1 t2 f thr] e show ?thesis by simp
qed

text \<open>
  C4. In any run of one source's state machine from its construction, two successive
  ALERT events are at least \<open>retrigger_gap_ms\<close> apart (by the \<open>now_ms\<close> readings of the
  calls that returned them).
\<close>

theorem alerts_retrigger_gap:
  "successively (\<lambda>a b. b - a \<ge> real_of_int (retrigger_gap_ms cfg))
     (alert_times cfg (StateMachine_init s t0) inputs)"
  using alert_times_spaced[of cfg "StateMachine_init s t0" inputs]
  by (simp add: StateMachine_init_def)

section \<open>Aggregation\<close>

lemma not_none_column: "not_none (map (\<lambda>r. r col) rows) = present_values col rows"
  by (induction rows) (simp_all add: present_values_def split: option.splits)

lemma present_values_empty:
  "present_values col rows = [] \<longleftrightarrow> (\<forall>r \<in> set rows. r col = None)"
  by (induction rows) (simp_all add: present_values_def split: option.splits)

lemma py_max_fold: "py_max m vs = fold max vs m"
  by (induction vs arbitrary: m) (simp_all add: max_def)

lemma py_max_Max: "py_max v vs = Max (set (v # vs))"
  unfolding py_max_fold by (rule Max.set_eq_fold[symmetric])

lemma safe_max_column: "safe_max (map (\<lambda>r. r col) rows) = null_or_max (present_values col rows)"
  unfolding safe_max_def not_none_column null_or_max_def
  by (cases "present_values col rows") (simp_all add: py_max_Max del: set_simps)

lemma safe_avg_column: "safe_avg (map (\<lambda>r. r col) rows) = null_or_avg (present_values col rows)"
  by (simp add: safe_avg_def not_none_column null_or_avg_def Let_def)

lemma leq_60s_scan_first: "leq_60s_scan rows = null_or_first (present_values ''leq_60s'' rows)"
  by (induction rows)
     (simp_all add: present_values_def null_or_first_def split: option.splits)

lemma map_of_bands_fill:
  "map_of (bands_fill cols rows acc) col =
     (if col \<in> set cols then Some (safe_max (map (\<lambda>r. r col) rows)) else map_of acc col)"
  by (induction cols arbitrary: acc) (auto simp add: update_conv')

text \<open>
  C7. Every max aggregate of a window is the greatest of the column's present values and
  every average aggregate their mean, each null when the column has no present value;
  \<open>leq_60s_last\<close> is the first present value of its column in the order of the rows (most
  recent first), or null. This holds for every row list, the non-empty ones included, and
  independently for each of the nine band columns.
\<close>

theorem aggregates_ignore_missing:
  "(knd = ''UMIK'' \<longrightarrow>
      spl_max (make_fact knd rows tf tt) = null_or_max (present_values ''spl'' rows) \<and>
      lmax_max (make_fact knd rows tf tt) = null_or_max (present_values ''lmax'' rows) \<and>
      leq_1s_avg (make_fact knd rows tf tt) = null_or_avg (present_values ''leq_1s'' rows) \<and>
      leq_60s_last (make_fact knd rows tf tt) = null_or_first (present_values ''leq_60s'' rows) \<and>
      (\<forall>col \<in> set band_columns.
         map_of (bands_max (make_fact knd rows tf tt)) col = Some (null_or_max (present_values col rows)))) \<and>
   (knd \<noteq> ''UMIK'' \<longrightarrow>
      spl_max (make_fact knd rows tf tt) = null_or_max (present_values ''spl'' rows) \<and>
      lmax_max (make_fact knd rows tf tt) = null_or_max (present_values ''lmax'' rows) \<and>
      leq_avg (make_fact knd rows tf tt) = null_or_avg (present_values ''leq'' rows))"
  by (simp add: make_fact_def safe_max_column safe_avg_column leq_60s_scan_first map_of_bands_fill)

section \<open>The worker's poll\<close>

lemma ts_to_check: "ts_to (fst (check_levels_and_bands f cfg)) = ts_to f"
  by (simp add: check_levels_and_bands_def)

lemma ts_to_make_fact: "ts_to (make_fact knd rows tf tt) = tt"
  by (simp add: make_fact_def)

lemma poll_cases:
  "poll cfg env window w = (w, Stopped) \<or> poll cfg env window w = (w, AnchorReadFailed) \<or>
   poll cfg env window w = (w, NoData) \<or> poll cfg env window w = (w, AnchorUnchanged) \<or>
   (\<exists>a. latest_anchor (db env) (kind w) = Inr (Some a) \<and> \<not> stopped w \<and>
        (case last_anchor w of None \<Rightarrow> True | Some l \<Rightarrow> l < a) \<and>
        (poll cfg env window w = (w\<lparr>last_anchor := Some a\<rparr>, FetchFailed) \<or>
         poll cfg env window w = (w\<lparr>last_anchor := Some a\<rparr>, NoRows) \<or>
         (\<exists>sm n f ev. poll cfg env window w = (w\<lparr>last_anchor := Some a, fsm := sm\<rparr>, Evaluated n f ev) \<and>
            ts_to f = a \<and> 0 < n)))"
proof (cases "stopped w")
  case True
  then show ?thesis by (simp add: poll_def)
next
  case run: False
  show ?thesis
  proof (cases "latest_anchor (db env) (kind w)")
    case (Inl e)
    with run show ?thesis by (simp add: poll_def)
  next
    case (Inr r)
    show ?thesis
    proof (cases r)
      case None
      with run Inr show ?thesis by (simp add: poll_def)
    next
      case (Some a)
      show ?thesis
      proof (cases "case last_anchor w of None \<Rightarrow> False | Some l \<Rightarrow> a \<le> l")
        case True
        with run Inr Some show ?thesis by (simp add: poll_def)
      next
        case adv: False
        then have lt: "case last_anchor w of None \<Rightarrow> True | Some l \<Rightarrow> l < a"
          by (simp split: option.splits)
        define tf where "tf = (if a - window \<ge> a then a - 1 else a - window)"
        define res where "res =
          (if kind w = ''UMIK''
           then fetch_umik_window (db env) tf a (limit_last_u cfg)
           else fetch_analog_window (db env) tf a (limit_last_a cfg)
                  (case analog_weight_type cfg of
                     None \<Rightarrow> None
                   | Some s \<Rightarrow> if s = [] then None else Some s))"
        have unf: "poll cfg env window w =
          (case res of
             Inl e \<Rightarrow> (w\<lparr>last_anchor := Some a\<rparr>, FetchFailed)
           | Inr rows \<Rightarrow>
               if rows = [] then (w\<lparr>last_anchor := Some a\<rparr>, NoRows)
               else (w\<lparr>last_anchor := Some a,
                       fsm := fst (step cfg (time1 env) (time2 env) (fsm w)
                                (fst (check_levels_and_bands (make_fact (kind w) rows tf a) cfg))
                                (make_thresholds_view cfg (kind w)))\<rparr>,
                     Evaluated (length rows)
                       (fst (check_levels_and_bands (make_fact (kind w) rows tf a) cfg))
                       (snd (step cfg (time1 env) (time2 env) (fsm w)
                                (fst (check_levels_and_bands (make_fact (kind w) rows tf a) cfg))
                                (make_thresholds_view cfg (kind w))))))"
          using run Inr Some adv
          by (simp add: poll_def Let_def case_prod_beta res_def tf_def split: sum.split)
        show ?thesis
        proof (cases res)
          case (Inl e)
          with unf run Inr Some lt show ?thesis by simp
        next
          case rows: (Inr rows)
          show ?thesis
          proof (cases "rows = []")
            case True
            with unf rows run Inr Some lt show ?thesis by simp
          next
            case False
            let ?f = "fst (check_levels_and_bands (make_fact (kind w) rows tf a) cfg)"
            let ?s = "step cfg (time1 env) (time2 env) (fsm w) ?f (make_thresholds_view cfg (kind w))"
            from unf rows False have
              "poll cfg env window w =
                 (w\<lparr>last_anchor := Some a, fsm := fst ?s\<rparr>, Evaluated (length rows) ?f (snd ?s))"
              by simp
            moreover have "ts_to ?f = a" by (simp add: ts_to_check ts_to_make_fact)
            moreover from False have "0 < length rows" by simp
            ultimately have
              "\<exists>sm n f ev. poll cfg env window w =
                  (w\<lparr>last_anchor := Some a, fsm := sm\<rparr>, Evaluated n f ev) \<and> ts_to f = a \<and> 0 < n"
              by blast
            with run Inr Some lt show ?thesis by simp
          qed
        qed
      qed
    qed
  qed
qed

lemma poll_unchanged:
  assumes "last_anchor w = Some l" and "latest_anchor (db env) (kind w) = Inr (Some a)" and "a \<le> l"
  shows "fst (poll cfg env window w) = w \<and>
         (snd (poll cfg env window w) = AnchorUnchanged \<or> snd (poll cfg env window w) = Stopped)"
  using assms by (simp add: poll_def)

lemma poll_anchor_step:
  "(case last_anchor w of None \<Rightarrow> True
    | Some l \<Rightarrow> (\<exists>l'. last_anchor (fst (poll cfg env window w)) = Some l' \<and> l \<le> l')) \<and>
   (\<forall>n f ev. snd (poll cfg env window w) = Evaluated n f ev \<longrightarrow>
      last_anchor (fst (poll cfg env window w)) = Some (ts_to f) \<and>
      (case last_anchor w of None \<Rightarrow> True | Some l \<Rightarrow> l < ts_to f))"
  using poll_cases[of cfg env window w]
  by (elim disjE exE conjE) (simp_all split: option.splits)

lemma run_polls_increasing:
  "sorted_wrt (<) (evaluated_anchors (snd (run_polls cfg w ticks))) \<and>
   (\<forall>a \<in> set (evaluated_anchors (snd (run_polls cfg w ticks))).
      case last_anchor w of None \<Rightarrow> True | Some l \<Rightarrow> l < a)"
proof (induction ticks arbitrary: w)
  case Nil
  then show ?case by simp
next
  case (Cons tick ticks)
  obtain window env where t: "tick = (window, env)" by (cases tick)
  obtain w1 out where p: "poll cfg env window w = (w1, out)" by (cases "poll cfg env window w")
  note ih = Cons.IH[of w1]
  note st = poll_anchor_step[where w = w and cfg = cfg and env = env and window = window, unfolded p fst_conv snd_conv]
  show ?case
  proof (cases out)
    case (Evaluated n f ev)
    with st have l1: "last_anchor w1 = Some (ts_to f)"
      and lt: "case last_anchor w of None \<Rightarrow> True | Some l \<Rightarrow> l < ts_to f" by simp_all
    from ih l1 have "\<forall>a \<in> set (evaluated_anchors (snd (run_polls cfg w1 ticks))). ts_to f < a"
      by simp
    with ih lt Evaluated show ?thesis
      by (auto simp add: t p case_prod_beta split: option.splits)
  qed (use ih st in \<open>auto simp add: t p case_prod_beta split: option.splits\<close>)
qed

text \<open>
  C5. A poll whose anchor read is not strictly past the recorded anchor leaves the worker
  unchanged and evaluates nothing; and over any sequence of polls of one worker the
  anchors of the polls that aggregated, evaluated and stepped are strictly increasing, so
  no anchor value is evaluated twice.
\<close>

theorem poll_dedup:
  "(\<forall>l a. last_anchor w = Some l \<and> latest_anchor (db env) (kind w) = Inr (Some a) \<and> a \<le> l \<longrightarrow>
      fst (poll cfg env window w) = w \<and>
      (snd (poll cfg env window w) = AnchorUnchanged \<or> snd (poll cfg env window w) = Stopped)) \<and>
   sorted_wrt (<) (evaluated_anchors (snd (run_polls cfg w ticks))) \<and>
   distinct (evaluated_anchors (snd (run_polls cfg w ticks)))"
proof -
  have "sorted_wrt (<) (evaluated_anchors (snd (run_polls cfg w ticks)))"
    using run_polls_increasing[of cfg w ticks] by simp
  moreover from this have "distinct (evaluated_anchors (snd (run_polls cfg w ticks)))"
    by (simp add: strict_sorted_iff)
  ultimately show ?thesis using poll_unchanged[where w = w and env = env and cfg = cfg and window = window] by blast
qed

text \<open>
  A poll that is not stopped and reads an anchor past the recorded one reaches the fetch,
  and what it returns is decided by the fetch; the outcome \<open>FetchFailed\<close> is returned
  exactly when that fetch raised.
\<close>

lemma poll_reaches_fetch:
  assumes "\<not> stopped w" and "latest_anchor (db env) (kind w) = Inr (Some a)"
    and "case last_anchor w of None \<Rightarrow> True | Some l \<Rightarrow> l < a"
  shows "poll cfg env window w =
     (case fetch_window cfg (db env) (kind w) (window_start a window) a of
        Inl e \<Rightarrow> (w\<lparr>last_anchor := Some a\<rparr>, FetchFailed)
      | Inr rows \<Rightarrow>
          if rows = [] then (w\<lparr>last_anchor := Some a\<rparr>, NoRows)
          else (w\<lparr>last_anchor := Some a,
                  fsm := fst (step cfg (time1 env) (time2 env) (fsm w)
                           (fst (check_levels_and_bands
                                  (make_fact (kind w) rows (window_start a window) a) cfg))
                           (make_thresholds_view cfg (kind w)))\<rparr>,
                Evaluated (length rows)
                  (fst (check_levels_and_bands
                         (make_fact (kind w) rows (window_start a window) a) cfg))
                  (snd (step cfg (time1 env) (time2 env) (fsm w)
                           (fst (check_levels_and_bands
                                  (make_fact (kind w) rows (window_start a window) a) cfg))
                           (make_thresholds_view cfg (kind w))))))"
proof -
  from assms(3) have adv: "\<not> (case last_anchor w of None \<Rightarrow> False | Some l \<Rightarrow> a \<le> l)"
    by (simp split: option.splits)
  with assms(1,2) show ?thesis
    by (simp add: poll_def Let_def case_prod_beta fetch_window_def window_start_def
          split: sum.split)
qed

lemma poll_FetchFailed_iff:
  "snd (poll cfg env window w) = FetchFailed \<longleftrightarrow>
     (\<not> stopped w \<and>
      (\<exists>a e. latest_anchor (db env) (kind w) = Inr (Some a) \<and>
         (case last_anchor w of None \<Rightarrow> True | Some l \<Rightarrow> l < a) \<and>
         fetch_window cfg (db env) (kind w) (window_start a window) a = Inl e))"
proof
  assume f: "snd (poll cfg env window w) = FetchFailed"
  with poll_cases[of cfg env window w]
  obtain a where a: "latest_anchor (db env) (kind w) = Inr (Some a)" "\<not> stopped w"
    "case last_anchor w of None \<Rightarrow> True | Some l \<Rightarrow> l < a"
    by auto
  from f have "\<exists>e. fetch_window cfg (db env) (kind w) (window_start a window) a = Inl e"
    unfolding poll_reaches_fetch[OF a(2) a(1) a(3)]
    by (cases "fetch_window cfg (db env) (kind w) (window_start a window) a")
       (simp_all split: if_splits)
  with a show "\<not> stopped w \<and>
      (\<exists>a e. latest_anchor (db env) (kind w) = Inr (Some a) \<and>
         (case last_anchor w of None \<Rightarrow> True | Some l \<Rightarrow> l < a) \<and>
         fetch_window cfg (db env) (kind w) (window_start a window) a = Inl e)"
    by blast
next
  assume "\<not> stopped w \<and>
      (\<exists>a e. latest_anchor (db env) (kind w) = Inr (Some a) \<and>
         (case last_anchor w of None \<Rightarrow> True | Some l \<Rightarrow> l < a) \<and>
         fetch_window cfg (db env) (kind w) (window_start a window) a = Inl e)"
  then obtain a e where a: "\<not> stopped w" "latest_anchor (db env) (kind w) = Inr (Some a)"
    "case last_anchor w of None \<Rightarrow> True | Some l \<Rightarrow> l < a"
    and e: "fetch_window cfg (db env) (kind w) (window_start a window) a = Inl e"
    by blast
  show "snd (poll cfg env window w) = FetchFailed"
    unfolding poll_reaches_fetch[OF a] by (simp add: e)
qed

text \<open>
  C2 (as amended). When a poll reaches the window fetch (the worker is not stopped and the
  anchor read is past the recorded one) and the fetch raises, for either source, the poll
  ends there: no fact is produced, the state machine and every other field of the worker
  are unchanged and nothing is sent, except that the recorded anchor has already been set
  to the anchor of the failed read (not beyond it). A later poll that reads that anchor or
  an older one is therefore skipped as unchanged; the window is evaluated again only once
  the anchor has advanced.
\<close>

theorem fetch_failure_keeps_anchor:
  assumes "\<not> stopped w"
    and "latest_anchor (db env) (kind w) = Inr (Some a)"
    and "case last_anchor w of None \<Rightarrow> True | Some l \<Rightarrow> l < a"
    and "fetch_window cfg (db env) (kind w) (window_start a window) a = Inl e"
  shows "poll cfg env window w = (w\<lparr>last_anchor := Some a\<rparr>, FetchFailed) \<and>
         (\<forall>env' window' a'. latest_anchor (db env') (kind w) = Inr (Some a') \<and> a' \<le> a \<longrightarrow>
            poll cfg env' window' (w\<lparr>last_anchor := Some a\<rparr>) =
              (w\<lparr>last_anchor := Some a\<rparr>, AnchorUnchanged))"
proof -
  have p: "poll cfg env window w = (w\<lparr>last_anchor := Some a\<rparr>, FetchFailed)"
    unfolding poll_reaches_fetch[OF assms(1,2,3)] by (simp add: assms(4))
  have "poll cfg env' window' (w\<lparr>last_anchor := Some a\<rparr>) = (w\<lparr>last_anchor := Some a\<rparr>, AnchorUnchanged)"
    if "latest_anchor (db env') (kind w) = Inr (Some a')" "a' \<le> a" for env' window' a'
    using that assms(1) by (simp add: poll_def)
  with p show ?thesis by blast
qed

lemma poll_advanced:
  assumes "\<not> stopped w" and "latest_anchor (db env) (kind w) = Inr (Some a)"
    and "case last_anchor w of None \<Rightarrow> True | Some l \<Rightarrow> l < a"
    and "tf = (if a - window \<ge> a then a - 1 else a - window)"
    and "(if kind w = ''UMIK''
          then fetch_umik_window (db env) tf a (limit_last_u cfg)
          else fetch_analog_window (db env) tf a (limit_last_a cfg)
                 (case analog_weight_type cfg of
                    None \<Rightarrow> None
                  | Some s \<Rightarrow> if s = [] then None else Some s)) = Inr rows"
    and "rows \<noteq> []"
    and "f = fst (check_levels_and_bands (make_fact (kind w) rows tf a) cfg)"
  shows "poll cfg env window w =
           (w\<lparr>last_anchor := Some a,
               fsm := fst (step cfg (time1 env) (time2 env) (fsm w) f (make_thresholds_view cfg (kind w)))\<rparr>,
            Evaluated (length rows) f
              (snd (step cfg (time1 env) (time2 env) (fsm w) f (make_thresholds_view cfg (kind w)))))"
proof -
  from assms(3) have adv: "\<not> (case last_anchor w of None \<Rightarrow> False | Some l \<Rightarrow> a \<le> l)"
    by (simp split: option.splits)
  from assms(5) show ?thesis
    unfolding assms(4) assms(7)
    using assms(1,2,6) adv
    by (simp add: poll_def Let_def case_prod_beta split: sum.split)
qed

text \<open>
  Whatever event \<open>step\<close> returns carries \<open>samples = 0\<close> and the window width computed by
  \<open>make_event\<close>; \<open>poll\<close> hands it on as it is, although at least one row was aggregated.
\<close>

lemma step_event_samples:
  "snd (step cfg t1 t2 sm f thr) = Some e \<Longrightarrow> samples e = 0 \<and> window_sec e = win_seconds f"
  by (cases "state sm")
     (auto simp add: step_def Let_def case_prod_beta make_event_def update_counters_fields
        split: if_splits)

lemma poll_event_samples:
  assumes "snd (poll cfg env window w) = Evaluated n f (Some e)"
  shows "samples e = 0 \<and> 0 < n \<and> window_sec e = win_seconds f"
proof -
  from assms have "poll cfg env window w = (fst (poll cfg env window w), Evaluated n f (Some e))"
    by (metis prod.collapse)
  then show ?thesis
    by (auto simp add: poll_def Let_def case_prod_beta
          split: if_splits sum.splits option.splits dest: step_event_samples)
qed

section \<open>Worked examples\<close>

lemma demo_window_eval:
  "demo_window =
     \<lparr>ts_from = 95, ts_to = 100, src = ''UMIK'', spl_max = Some 75, lmax_max = None,
      leq_1s_avg = Some 58, leq_60s_last = Some 55,
      bands_max = [(''31.5_Hz'', None), (''63.0_Hz'', Some 45), (''125.0_Hz'', None),
                   (''250.0_Hz'', None), (''500.0_Hz'', None), (''1000.0_Hz'', None),
                   (''2000.0_Hz'', None), (''4000.0_Hz'', None), (''8000.0_Hz'', None)],
      leq_avg = None, exceeded_levels = [], exceeded_bands = []\<rparr>"
  by (simp add: demo_window_def make_fact_def demo_rows_def safe_max_def safe_avg_def
        band_columns_def)

lemma demo_fact_eval:
  "exceeded_levels demo_fact = [(''spl'', True), (''lmax'', False)]"
  "exceeded_bands demo_fact = [(''63.0_Hz'', True)]"
  "src demo_fact = ''UMIK''" "ts_to demo_fact = 100" "ts_from demo_fact = 95"
  by (simp_all add: demo_fact_def demo_window_eval check_levels_and_bands_def demo_cfg_def
        level_check_def dict_get_def)

lemma demo_is_exceeded:
  "is_exceeded demo_fact = (True, [(''spl'', True), (''lmax'', False)], [(''63.0_Hz'', True)])"
  by (simp add: is_exceeded_def demo_fact_eval)

text \<open>
  The evaluator on the example window: SPL 75 against threshold 70 is true, the level
  without a threshold is absent, the 63 Hz band (45 against 40) is true, and the overall
  flag is set.
\<close>

theorem exceedance_result_witness:
  "src demo_window = ''UMIK'' \<and> distinct (map fst (umik_thr_bands demo_cfg)) \<and>
   map_of (exceeded_levels (fst (check_levels_and_bands demo_window demo_cfg))) ''spl'' = Some True \<and>
   map_of (exceeded_levels (fst (check_levels_and_bands demo_window demo_cfg))) ''leq_1s'' = None \<and>
   map_of (exceeded_bands (fst (check_levels_and_bands demo_window demo_cfg))) ''63.0_Hz'' = Some True \<and>
   map_of (exceeded_bands (fst (check_levels_and_bands demo_window demo_cfg))) ''125.0_Hz'' = None \<and>
   fst (is_exceeded (fst (check_levels_and_bands demo_window demo_cfg)))"
proof -
  have s: "src demo_window = ''UMIK'' \<or> src demo_window = ''ANALOG''"
    by (simp add: demo_window_eval)
  have d: "distinct (map fst (umik_thr_bands demo_cfg))" by (simp add: demo_cfg_def)
  have t: "level_threshold demo_cfg ''UMIK'' ''spl'' = Some 70"
    "level_threshold demo_cfg ''UMIK'' ''leq_1s'' = None"
    "band_threshold demo_cfg ''UMIK'' ''63.0_Hz'' = Some 40"
    "band_threshold demo_cfg ''UMIK'' ''125.0_Hz'' = Some 50"
    by (simp_all add: level_threshold_def band_threshold_def make_thresholds_view_def
          demo_cfg_def dict_get_def)
  have a: "level_aggregate demo_window ''spl'' = Some 75"
    "dict_get (bands_max demo_window) ''63.0_Hz'' = Some 45"
    "dict_get (bands_max demo_window) ''125.0_Hz'' = None"
    "src demo_window = ''UMIK''"
    by (simp_all add: level_aggregate_def demo_window_eval dict_get_def)
  note r1 = exceedance_result[OF s d, of "''spl''" "''63.0_Hz''"]
  note r2 = exceedance_result[OF s d, of "''leq_1s''" "''125.0_Hz''"]
  from r1 have 1:
    "map_of (exceeded_levels (fst (check_levels_and_bands demo_window demo_cfg))) ''spl'' = Some True"
    "map_of (exceeded_bands (fst (check_levels_and_bands demo_window demo_cfg))) ''63.0_Hz'' = Some True"
    by (simp_all add: t a)
  from r2 have 2:
    "map_of (exceeded_levels (fst (check_levels_and_bands demo_window demo_cfg))) ''leq_1s'' = None"
    "map_of (exceeded_bands (fst (check_levels_and_bands demo_window demo_cfg))) ''125.0_Hz'' = None"
    by (simp_all add: t a)
  from r1 1 have 3: "fst (is_exceeded (fst (check_levels_and_bands demo_window demo_cfg)))"
    by blast
  from 1 2 3 a(4) d show ?thesis by simp
qed

text \<open>
  The 125 Hz band has a configured threshold, yet it is absent from the result of the
  example window, in which no row carries a value for that band: absence is not confined
  to bands without a threshold.
\<close>

theorem exceedance_result_counterexample:
  "map_of (umik_thr_bands demo_cfg) ''125.0_Hz'' = Some 50 \<and>
   src demo_window = ''UMIK'' \<and>
   map_of (exceeded_bands (fst (check_levels_and_bands demo_window demo_cfg))) ''125.0_Hz'' = None"
proof -
  have "exceeded_bands (fst (check_levels_and_bands demo_window demo_cfg)) = [(''63.0_Hz'', True)]"
    using demo_fact_eval(2) by (simp only: demo_fact_def)
  then show ?thesis by (simp add: demo_cfg_def demo_window_eval)
qed

text \<open>
  The evaluator on a window of the unknown source \<open>MIC3\<close>.
\<close>

theorem unknown_source_silent_witness:
  "src stray_fact \<noteq> ''UMIK'' \<and> src stray_fact \<noteq> ''ANALOG'' \<and>
   snd (check_levels_and_bands stray_fact demo_cfg) = [''Unknown fact.src: MIC3''] \<and>
   is_exceeded (fst (check_levels_and_bands stray_fact demo_cfg)) = (False, [], [])"
proof -
  have s: "src stray_fact \<noteq> ''UMIK''" "src stray_fact \<noteq> ''ANALOG''"
    by (simp_all add: stray_fact_def)
  have m: "src stray_fact = ''MIC3''" by (simp add: stray_fact_def)
  note r = unknown_source_silent[OF s, of demo_cfg]
  from r[THEN conjunct1] m
  have 1: "snd (check_levels_and_bands stray_fact demo_cfg) = [''Unknown fact.src: MIC3'']"
    by simp
  from 1 r[THEN conjunct2] s show ?thesis by simp
qed

text \<open>
  A window of the unknown source \<open>MIC3\<close> whose SPL of 75 is above the configured 70: the
  evaluator returns a result, and the result is empty with the overall flag false.
\<close>

theorem unknown_source_counterexample:
  "src stray_fact = ''MIC3'' \<and> spl_max stray_fact = Some 75 \<and> umik_thr_spl demo_cfg = Some 70 \<and>
   exceeded_levels (fst (check_levels_and_bands stray_fact demo_cfg)) = [] \<and>
   exceeded_bands (fst (check_levels_and_bands stray_fact demo_cfg)) = [] \<and>
   fst (is_exceeded (fst (check_levels_and_bands stray_fact demo_cfg))) = False"
  by (simp add: stray_fact_def demo_window_eval check_levels_and_bands_def is_exceeded_def
        demo_cfg_def)

lemma demo_step_cfg:
  "trigger_hold_ms demo_cfg = 1000" "recover_hold_ms demo_cfg = 2000"
  "cooldown_ms demo_cfg = 3000" "retrigger_gap_ms demo_cfg = 5000"
  "consecutive_required demo_cfg = 3" "send_recovery demo_cfg = True"
  by (simp_all add: demo_cfg_def)

lemmas step_eval =
  step_def update_counters_def demo_is_exceeded demo_step_cfg StateMachine_init_def Let_def

lemma quiet_is_exceeded:
  "is_exceeded quiet_fact = (False, [(''spl'', False), (''lmax'', False)], [])"
  by (simp add: is_exceeded_def quiet_fact_def make_fact_def safe_max_def safe_avg_def
        band_columns_def check_levels_and_bands_def demo_cfg_def level_check_def dict_get_def)

lemmas run_eval =
  loud_step_def quiet_step_def step_def update_counters_def demo_is_exceeded quiet_is_exceeded
  demo_step_cfg StateMachine_init_def Let_def

lemma demo_two_loud:
  "fst (run_steps demo_cfg (StateMachine_init ''UMIK'' 0) [loud_step 0, loud_step (1/2)]) =
     \<lparr>sm_src = ''UMIK'', state = NORMAL, last_transition = 0, active_since = Some 0,
      recovery_since = None, consec_hit = 2, consec_ok = 0, last_alert_at_ms = None\<rparr>"
  "exceed_run demo_cfg (StateMachine_init ''UMIK'' 0) [loud_step 0, loud_step (1/2)] [] = [0, 1/2]"
  "alert_times demo_cfg (StateMachine_init ''UMIK'' 0) [loud_step 0, loud_step (1/2)] = []"
  by (simp_all add: run_eval)

lemma demo_loud_loud_quiet:
  "fst (run_steps demo_cfg (StateMachine_init ''UMIK'' 0)
          [loud_step 0, loud_step (1/2), quiet_step 1]) =
     \<lparr>sm_src = ''UMIK'', state = NORMAL, last_transition = 0, active_since = None,
      recovery_since = Some 1, consec_hit = 0, consec_ok = 1, last_alert_at_ms = None\<rparr>"
  "exceed_run demo_cfg (StateMachine_init ''UMIK'' 0)
          [loud_step 0, loud_step (1/2), quiet_step 1] [] = []"
  "alert_times demo_cfg (StateMachine_init ''UMIK'' 0)
          [loud_step 0, loud_step (1/2), quiet_step 1] = []"
  by (simp_all add: run_eval)

text \<open>
  The specification's scenarios. After exceeding polls at 0 s and 0.5 s a third exceeding
  poll at 1 s fires the ALERT and ends in COOLDOWN. After exceeding polls at 0 s and 0.5 s
  and a quiet poll at 1 s the exceeding run is empty again, and an exceeding poll at 1.5 s
  returns nothing.
\<close>

theorem step_normal_alert_iff_witness:
  "state (fst (run_steps demo_cfg (StateMachine_init ''UMIK'' 0) [loud_step 0, loud_step (1/2)])) = NORMAL \<and>
   exceed_run demo_cfg (StateMachine_init ''UMIK'' 0) [loud_step 0, loud_step (1/2)] [] = [0, 1/2] \<and>
   (\<exists>e. snd (step demo_cfg 1 1
              (fst (run_steps demo_cfg (StateMachine_init ''UMIK'' 0) [loud_step 0, loud_step (1/2)]))
              demo_fact demo_thr) = Some e \<and> etype e = EvALERT) \<and>
   state (fst (step demo_cfg 1 1
              (fst (run_steps demo_cfg (StateMachine_init ''UMIK'' 0) [loud_step 0, loud_step (1/2)]))
              demo_fact demo_thr)) = COOLDOWN \<and>
   state (fst (run_steps demo_cfg (StateMachine_init ''UMIK'' 0)
              [loud_step 0, loud_step (1/2), quiet_step 1])) = NORMAL \<and>
   exceed_run demo_cfg (StateMachine_init ''UMIK'' 0)
              [loud_step 0, loud_step (1/2), quiet_step 1] [] = [] \<and>
   snd (step demo_cfg (3/2) (3/2)
              (fst (run_steps demo_cfg (StateMachine_init ''UMIK'' 0)
                      [loud_step 0, loud_step (1/2), quiet_step 1]))
              demo_fact demo_thr) = None"
proof -
  let ?I = "StateMachine_init ''UMIK'' 0"
  let ?p1 = "[loud_step 0, loud_step (1/2)]"
  let ?p2 = "[loud_step 0, loud_step (1/2), quiet_step 1]"
  have n1: "state (fst (run_steps demo_cfg ?I ?p1)) = NORMAL" by (simp add: demo_two_loud)
  have n2: "state (fst (run_steps demo_cfg ?I ?p2)) = NORMAL" by (simp add: demo_loud_loud_quiet)
  note r1 = step_normal_alert_iff[OF n1, of 1 1 demo_fact demo_thr]
  note r2 = step_normal_alert_iff[OF n2, of "3/2" "3/2" demo_fact demo_thr]
  have c1: "fst (is_exceeded demo_fact) \<and>
            (1 - (case exceed_run demo_cfg ?I ?p1 [] of [] \<Rightarrow> 1 | t # _ \<Rightarrow> t)) * 1000
               \<ge> real_of_int (trigger_hold_ms demo_cfg) \<and>
            int (length (exceed_run demo_cfg ?I ?p1 [])) + 1 \<ge> consecutive_required demo_cfg \<and>
            alert_times demo_cfg ?I ?p1 = []"
    by (simp add: demo_two_loud demo_is_exceeded demo_step_cfg)
  have c2: "\<not> int (length (exceed_run demo_cfg ?I ?p2 [])) + 1 \<ge> consecutive_required demo_cfg"
    by (simp add: demo_loud_loud_quiet demo_step_cfg)
  from r1 c1 have f: "\<exists>e. snd (step demo_cfg 1 1 (fst (run_steps demo_cfg ?I ?p1)) demo_fact demo_thr) = Some e \<and>
                          etype e = EvALERT"
    by blast
  with r1 have s: "state (fst (step demo_cfg 1 1 (fst (run_steps demo_cfg ?I ?p1)) demo_fact demo_thr)) = COOLDOWN"
    by auto
  from r2 c2 have q: "snd (step demo_cfg (3/2) (3/2) (fst (run_steps demo_cfg ?I ?p2)) demo_fact demo_thr) = None"
    by blast
  from n1 n2 f s q demo_two_loud(2) demo_loud_loud_quiet(2) show ?thesis by simp
qed

lemma demo_cooldown_state:
  "fst (run_steps demo_cfg (StateMachine_init ''UMIK'' 0)
          [loud_step 0, loud_step (1/2), loud_step 1, loud_step 2, quiet_step 3]) =
     \<lparr>sm_src = ''UMIK'', state = COOLDOWN, last_transition = 1, active_since = None,
      recovery_since = Some 3, consec_hit = 0, consec_ok = 1, last_alert_at_ms = Some 1000\<rparr>"
  by (simp add: run_eval make_event_def)

lemma demo_in_cooldown:
  "state (fst (run_steps demo_cfg (StateMachine_init ''UMIK'' 0)
                 [loud_step 0, loud_step (1/2), loud_step 1, loud_step 2, quiet_step 3])) = COOLDOWN"
  "cooldown_entry demo_cfg (StateMachine_init ''UMIK'' 0)
     [loud_step 0, loud_step (1/2), loud_step 1, loud_step 2, quiet_step 3] None = Some 1"
proof -
  show c: "state (fst (run_steps demo_cfg (StateMachine_init ''UMIK'' 0)
                 [loud_step 0, loud_step (1/2), loud_step 1, loud_step 2, quiet_step 3])) = COOLDOWN"
    by (simp add: demo_cooldown_state)
  from cooldown_entry_tracks[OF c]
  show "cooldown_entry demo_cfg (StateMachine_init ''UMIK'' 0)
     [loud_step 0, loud_step (1/2), loud_step 1, loud_step 2, quiet_step 3] None = Some 1"
    by (simp add: demo_cooldown_state)
qed

text \<open>
  The specification's scenario, with polls during the cooldown: COOLDOWN is entered at 1 s
  with a cooldown of 3000 ms, the machine is polled at 2 s and 3 s, and it is still in
  COOLDOWN at 3.999 s and in NORMAL, counters reset, at 4.001 s, on an exceeding poll.
\<close>

theorem step_cooldown_witness:
  "state (fst (run_steps demo_cfg (StateMachine_init ''UMIK'' 0)
                 [loud_step 0, loud_step (1/2), loud_step 1, loud_step 2, quiet_step 3])) = COOLDOWN \<and>
   cooldown_entry demo_cfg (StateMachine_init ''UMIK'' 0)
     [loud_step 0, loud_step (1/2), loud_step 1, loud_step 2, quiet_step 3] None = Some 1 \<and>
   state (fst (step demo_cfg (3999/1000) (3999/1000)
            (fst (run_steps demo_cfg (StateMachine_init ''UMIK'' 0)
                    [loud_step 0, loud_step (1/2), loud_step 1, loud_step 2, quiet_step 3]))
            demo_fact demo_thr)) = COOLDOWN \<and>
   state (fst (step demo_cfg (4001/1000) (4001/1000)
            (fst (run_steps demo_cfg (StateMachine_init ''UMIK'' 0)
                    [loud_step 0, loud_step (1/2), loud_step 1, loud_step 2, quiet_step 3]))
            demo_fact demo_thr)) = NORMAL \<and>
   consec_hit (fst (step demo_cfg (4001/1000) (4001/1000)
            (fst (run_steps demo_cfg (StateMachine_init ''UMIK'' 0)
                    [loud_step 0, loud_step (1/2), loud_step 1, loud_step 2, quiet_step 3]))
            demo_fact demo_thr)) = 0"
proof -
  let ?I = "StateMachine_init ''UMIK'' 0"
  let ?p = "[loud_step 0, loud_step (1/2), loud_step 1, loud_step 2, quiet_step 3]"
  note c = demo_in_cooldown(1)
  from step_cooldown[OF c, of "3999/1000" "3999/1000" demo_fact demo_thr]
  have 1: "state (fst (step demo_cfg (3999/1000) (3999/1000) (fst (run_steps demo_cfg ?I ?p))
                    demo_fact demo_thr)) = COOLDOWN"
    by (simp add: demo_in_cooldown(2) demo_step_cfg)
  from step_cooldown[OF c, of "4001/1000" "4001/1000" demo_fact demo_thr]
  have 2: "state (fst (step demo_cfg (4001/1000) (4001/1000) (fst (run_steps demo_cfg ?I ?p))
                    demo_fact demo_thr)) = NORMAL \<and>
           consec_hit (fst (step demo_cfg (4001/1000) (4001/1000) (fst (run_steps demo_cfg ?I ?p))
                    demo_fact demo_thr)) = 0"
    by (simp add: demo_in_cooldown(2) demo_step_cfg)
  from c demo_in_cooldown(2) 1 2 show ?thesis by simp
qed

text \<open>
  Nine exceeding polls from construction: two ALERT events, no other event, and the last
  state is COOLDOWN.
\<close>

theorem alert_state_transient_witness:
  "map (map_option etype) (snd (run_steps demo_cfg (StateMachine_init ''UMIK'' 0) demo_steps)) =
     [None, None, Some EvALERT, None, None, None, None, Some EvALERT, None] \<and>
   state (fst (run_steps demo_cfg (StateMachine_init ''UMIK'' 0) demo_steps)) = COOLDOWN"
  using alert_state_transient[of demo_cfg "''UMIK''" 0 demo_steps]
  by (simp add: demo_steps_def step_eval make_event_def)

text \<open>
  In the same run the ALERTs come at 1000 ms and 6000 ms: the poll at 5500 ms meets the hold
  and the count but is held back by the retrigger gap of 5000 ms.
\<close>

theorem alerts_retrigger_gap_witness:
  "alert_times demo_cfg (StateMachine_init ''UMIK'' 0) demo_steps = [1000, 6000] \<and>
   successively (\<lambda>a b. b - a \<ge> real_of_int (retrigger_gap_ms demo_cfg)) [1000, 6000]"
proof -
  have e: "alert_times demo_cfg (StateMachine_init ''UMIK'' 0) demo_steps = [1000, 6000]"
    by (simp add: demo_steps_def step_eval make_event_def)
  from alerts_retrigger_gap[of demo_cfg "''UMIK''" 0 demo_steps] e show ?thesis by simp
qed

lemma demo_present:
  "present_values ''spl'' demo_rows = [75, 60]"
  "present_values ''lmax'' demo_rows = []"
  "present_values ''leq_1s'' demo_rows = [58]"
  "present_values ''leq_60s'' demo_rows = [55, 50]"
  "present_values ''63.0_Hz'' demo_rows = [45]"
  "present_values ''125.0_Hz'' demo_rows = []"
  by (simp_all add: present_values_def demo_rows_def)

text \<open>
  The aggregates of the example rows: the newest row lacks the long-window average, so the
  value of the second row is taken; the peak level, which no row has, is null.
\<close>

theorem aggregates_ignore_missing_witness:
  "spl_max (make_fact ''UMIK'' demo_rows 95 100) = Some 75 \<and>
   lmax_max (make_fact ''UMIK'' demo_rows 95 100) = None \<and>
   leq_1s_avg (make_fact ''UMIK'' demo_rows 95 100) = Some 58 \<and>
   leq_60s_last (make_fact ''UMIK'' demo_rows 95 100) = Some 55 \<and>
   map_of (bands_max (make_fact ''UMIK'' demo_rows 95 100)) ''63.0_Hz'' = Some (Some 45) \<and>
   map_of (bands_max (make_fact ''UMIK'' demo_rows 95 100)) ''125.0_Hz'' = Some None \<and>
   spl_max (make_fact ''ANALOG'' demo_rows 95 100) = Some 75 \<and>
   leq_avg (make_fact ''ANALOG'' demo_rows 95 100) = None"
proof -
  have b: "''63.0_Hz'' \<in> set band_columns" "''125.0_Hz'' \<in> set band_columns"
    by (simp_all add: band_columns_def)
  have l: "present_values ''leq'' demo_rows = []"
    by (simp add: present_values_def demo_rows_def)
  from aggregates_ignore_missing[of "''UMIK''" demo_rows 95 100]
       aggregates_ignore_missing[of "''ANALOG''" demo_rows 95 100] b
  show ?thesis
    by (simp add: demo_present l null_or_max_def null_or_avg_def null_or_first_def)
qed

lemma demo_poll_cfg:
  "limit_last_u demo_cfg = 200" "limit_last_a demo_cfg = 200" "analog_weight_type demo_cfg = None"
  by (simp_all add: demo_cfg_def)

lemma demo_env_fields:
  "latest_anchor (db (env_at (store_with a rows) t)) ''UMIK'' = Inr (Some a)"
  "latest_anchor (db (env_at (store_failing a) t)) ''UMIK'' = Inr (Some a)"
  "fetch_umik_window (db (env_at (store_with a rows) t)) tf tt k = Inr rows"
  "fetch_umik_window (db (env_at (store_failing a) t)) tf tt k = Inl Exception"
  "time1 (env_at d t) = t" "time2 (env_at d t) = t"
  by (simp_all add: env_at_def store_with_def store_failing_def latest_anchor_def)

lemma demo_worker_fields:
  "kind demo_worker = ''UMIK''" "stopped demo_worker = False" "last_anchor demo_worker = None"
  "fsm demo_worker = StateMachine_init ''UMIK'' 0"
  by (simp_all add: demo_worker_def DeviceWorker_init_def)

lemma failed_poll:
  "poll demo_cfg (env_at (store_failing 100) 0) 5 demo_worker =
     (demo_worker\<lparr>last_anchor := Some 100\<rparr>, FetchFailed)"
  by (simp add: poll_def demo_env_fields demo_worker_fields)

lemma demo_fetch_fails:
  "fetch_window demo_cfg (db (env_at (store_failing 100) 0)) knd tf tt = Inl Exception"
  by (simp add: fetch_window_def env_at_def store_failing_def)

lemma analog_worker_fields:
  "kind analog_worker = ''ANALOG''" "stopped analog_worker = False"
  "last_anchor analog_worker = None" "fsm analog_worker = StateMachine_init ''ANALOG'' 0"
  by (simp_all add: analog_worker_def DeviceWorker_init_def)

text \<open>
  A poll whose fetch raises at anchor 100, for a worker of each source, and a poll that
  then reads anchor 100 again from a store that answers.
\<close>

theorem fetch_failure_keeps_anchor_witness:
  "poll demo_cfg (env_at (store_failing 100) 0) 5 demo_worker =
     (demo_worker\<lparr>last_anchor := Some 100\<rparr>, FetchFailed) \<and>
   poll demo_cfg (env_at (store_failing 100) 0) 5 analog_worker =
     (analog_worker\<lparr>last_anchor := Some 100\<rparr>, FetchFailed) \<and>
   fsm (fst (poll demo_cfg (env_at (store_failing 100) 0) 5 analog_worker)) = fsm analog_worker \<and>
   poll demo_cfg (env_at (store_with 100 demo_rows) 1) 5 (demo_worker\<lparr>last_anchor := Some 100\<rparr>) =
     (demo_worker\<lparr>last_anchor := Some 100\<rparr>, AnchorUnchanged)"
proof -
  let ?e = "env_at (store_failing 100) 0"
  have u: "\<not> stopped demo_worker" "latest_anchor (db ?e) (kind demo_worker) = Inr (Some 100)"
    "case last_anchor demo_worker of None \<Rightarrow> True | Some l \<Rightarrow> l < 100"
    by (simp_all add: demo_worker_fields demo_env_fields)
  have a: "\<not> stopped analog_worker" "latest_anchor (db ?e) (kind analog_worker) = Inr (Some 100)"
    "case last_anchor analog_worker of None \<Rightarrow> True | Some l \<Rightarrow> l < 100"
    by (simp_all add: analog_worker_fields env_at_def store_failing_def latest_anchor_def)
  note ru = fetch_failure_keeps_anchor[OF u demo_fetch_fails, of 5]
  note ra = fetch_failure_keeps_anchor[OF a demo_fetch_fails, of 5]
  have "latest_anchor (db (env_at (store_with 100 demo_rows) 1)) (kind demo_worker) = Inr (Some 100)"
    by (simp add: demo_env_fields demo_worker_fields)
  with ru have n: "poll demo_cfg (env_at (store_with 100 demo_rows) 1) 5 (demo_worker\<lparr>last_anchor := Some 100\<rparr>) =
     (demo_worker\<lparr>last_anchor := Some 100\<rparr>, AnchorUnchanged)"
    by simp
  from ru ra n show ?thesis by simp
qed

text \<open>
  The failed fetch has an effect on the worker (the recorded anchor goes from none to 100),
  and on the next tick the same anchor is not evaluated again although the fetch would now
  succeed: the poll is skipped as unchanged.
\<close>

theorem fetch_failure_counterexample:
  "snd (poll demo_cfg (env_at (store_failing 100) 0) 5 demo_worker) = FetchFailed \<and>
   last_anchor demo_worker = None \<and>
   last_anchor (fst (poll demo_cfg (env_at (store_failing 100) 0) 5 demo_worker)) = Some 100 \<and>
   snd (poll demo_cfg (env_at (store_with 100 demo_rows) 1) 5
          (fst (poll demo_cfg (env_at (store_failing 100) 0) 5 demo_worker))) = AnchorUnchanged"
  by (simp add: failed_poll demo_worker_fields) (simp add: poll_def demo_env_fields demo_worker_fields)

lemma demo_rows_facts: "demo_rows \<noteq> []" "length demo_rows = 3"
  by (simp_all add: demo_rows_def)

lemma demo_poll_first:
  "poll demo_cfg (env_at (store_with 100 demo_rows) 0) 5 demo_worker =
     (demo_worker\<lparr>last_anchor := Some 100,
                  fsm := fst (step demo_cfg 0 0 (StateMachine_init ''UMIK'' 0) demo_fact demo_thr)\<rparr>,
      Evaluated 3 demo_fact (snd (step demo_cfg 0 0 (StateMachine_init ''UMIK'' 0) demo_fact demo_thr)))"
  using poll_advanced[of demo_worker "env_at (store_with 100 demo_rows) 0" 100 95 5 demo_cfg demo_rows demo_fact]
  by (simp add: demo_env_fields demo_worker_fields demo_rows_facts demo_fact_def demo_window_def
        demo_thr_def)

text \<open>
  Three ticks reading the anchors 100, 100 and 101: the second poll is skipped, and the
  anchors evaluated are 100 and 101.
\<close>

theorem poll_dedup_witness:
  "evaluated_anchors (snd (run_polls demo_cfg demo_worker
      [(5, env_at (store_with 100 demo_rows) 0),
       (5, env_at (store_with 100 demo_rows) (1/2)),
       (5, env_at (store_with 101 demo_rows) 1)])) = [100, 101] \<and>
   snd (poll demo_cfg (env_at (store_with 100 demo_rows) (1/2)) 5
          (fst (poll demo_cfg (env_at (store_with 100 demo_rows) 0) 5 demo_worker))) = AnchorUnchanged"
proof -
  let ?e0 = "env_at (store_with 100 demo_rows) 0"
  let ?e1 = "env_at (store_with 100 demo_rows) (1/2)"
  let ?e2 = "env_at (store_with 101 demo_rows) 1"
  let ?f2 = "fst (check_levels_and_bands (make_fact ''UMIK'' demo_rows 96 101) demo_cfg)"
  define w1 where "w1 = fst (poll demo_cfg ?e0 5 demo_worker)"
  have p0: "poll demo_cfg ?e0 5 demo_worker =
              (w1, Evaluated 3 demo_fact (snd (step demo_cfg 0 0 (StateMachine_init ''UMIK'' 0) demo_fact demo_thr)))"
    by (simp add: w1_def demo_poll_first)
  have w1: "last_anchor w1 = Some 100" "kind w1 = ''UMIK''" "stopped w1 = False"
    by (simp_all add: w1_def demo_poll_first demo_worker_fields)
  note d = poll_dedup[where w = w1 and env = ?e1 and cfg = demo_cfg and window = 5 and ticks = "[]"]
  note d2 = poll_dedup[where w = demo_worker and env = ?e0 and cfg = demo_cfg and window = 5
               and ticks = "[(5, ?e0), (5, ?e1), (5, ?e2)]"]
  from d w1 have u: "fst (poll demo_cfg ?e1 5 w1) = w1 \<and>
      (snd (poll demo_cfg ?e1 5 w1) = AnchorUnchanged \<or> snd (poll demo_cfg ?e1 5 w1) = Stopped)"
    by (simp add: demo_env_fields)
  have ns: "snd (poll demo_cfg ?e1 5 w1) \<noteq> Stopped"
    by (simp add: poll_def w1 demo_env_fields)
  with u have p1: "poll demo_cfg ?e1 5 w1 = (w1, AnchorUnchanged)"
    by (metis prod.collapse)
  have p2: "snd (poll demo_cfg ?e2 5 w1) =
              Evaluated 3 ?f2 (snd (step demo_cfg 1 1 (fsm w1) ?f2 (make_thresholds_view demo_cfg ''UMIK'')))"
    using poll_advanced[of w1 ?e2 101 96 5 demo_cfg demo_rows ?f2]
    by (simp add: demo_env_fields w1 demo_rows_facts)
  have "evaluated_anchors (snd (run_polls demo_cfg demo_worker [(5, ?e0), (5, ?e1), (5, ?e2)])) = [100, 101]"
    using p2
    by (simp add: case_prod_beta p0 p1 demo_fact_eval ts_to_check ts_to_make_fact)
  with p1 d2 show ?thesis by (simp add: w1_def)
qed

lemma eager_step_cfg:
  "trigger_hold_ms eager_cfg = 0" "recover_hold_ms eager_cfg = 2000"
  "cooldown_ms eager_cfg = 3000" "retrigger_gap_ms eager_cfg = 5000"
  "consecutive_required eager_cfg = 1" "limit_last_u eager_cfg = 200"
  by (simp_all add: eager_cfg_def demo_cfg_def)

lemma eager_fact: "fst (check_levels_and_bands demo_window eager_cfg) = demo_fact"
  by (simp add: demo_fact_def check_levels_and_bands_def eager_cfg_def)

text \<open>
  C9. The event handed to the notifier after a poll that aggregated three rows over a
  window of five seconds: it is an ALERT whose \<open>window_sec\<close> is 5, as set by
  \<open>make_event\<close>, and whose \<open>samples\<close> is still the 0 that \<open>make_event\<close> wrote, not 3.
\<close>

theorem samples_never_filled:
  "(case snd (poll eager_cfg (env_at (store_with 100 demo_rows) 0) 5 demo_worker) of
      Evaluated n f (Some e) \<Rightarrow> (n, etype e, samples e, window_sec e)
    | _ \<Rightarrow> (0, EvRECOVERY, 0, 0)) = (3, EvALERT, 0, 5)"
proof -
  have "snd (poll eager_cfg (env_at (store_with 100 demo_rows) 0) 5 demo_worker) =
          Evaluated 3 demo_fact
            (snd (step eager_cfg 0 0 (StateMachine_init ''UMIK'' 0) demo_fact
                    (make_thresholds_view eager_cfg ''UMIK'')))"
    using poll_advanced[of demo_worker "env_at (store_with 100 demo_rows) 0" 100 95 5 eager_cfg
            demo_rows demo_fact]
    by (simp add: demo_env_fields demo_worker_fields demo_rows_facts eager_fact
          demo_window_def[symmetric])
  then show ?thesis
    by (simp add: step_def update_counters_def demo_is_exceeded eager_step_cfg
          StateMachine_init_def Let_def make_event_def win_seconds_def demo_fact_eval)
qed

end
